theory Spec2Isabelle
  imports Complex_Main "HOL-Library.Sublist" "HOL-Library.Log_Nat" "HOL-Library.Multiset"
begin

section \<open>Python values, errors and strings\<close>

text \<open>
  The development embeds \<^verbatim>\<open>pelican/plugins/myst_reader/myst_reader.py\<close>.
  A Python \<^verbatim>\<open>str\<close> is a \<^typ>\<open>string\<close>: one \<^typ>\<open>char\<close> per code point, for
  the code points below 256. The functions on strings below
  (\<^verbatim>\<open>splitlines\<close>, \<^verbatim>\<open>strip\<close>, \<^verbatim>\<open>lower\<close>, \<^verbatim>\<open>replace\<close>, \<^verbatim>\<open>partition\<close>)
  follow CPython's behaviour on that range.
\<close>

datatype error =
    Exception string
  | ValueError string
  | TypeError
  | AttributeError
  | IndexError
  | ZeroDivisionError
  | OverflowError
  | OSError string
  | JSONDecodeError string

text \<open>
  A Python \<^verbatim>\<open>float\<close>: a finite value (held as the rational it denotes; the two
  zeros are not told apart), an infinity, or a NaN.
\<close>

datatype pyfloat = Finite rat | PosInf | NegInf | NaN

datatype pyval =
    PNone
  | PBool bool
  | PInt int
  | PFloat pyfloat
  | PStr string
  | PList "pyval list"
  | PDict "(string \<times> pyval) list"

text \<open>Truth value testing (\<^verbatim>\<open>bool(x)\<close>, \<^verbatim>\<open>if x\<close>, \<^verbatim>\<open>not x\<close>).\<close>

fun truthy :: "pyval \<Rightarrow> bool" where
  "truthy PNone = False"
| "truthy (PBool b) = b"
| "truthy (PInt i) = (i \<noteq> 0)"
| "truthy (PFloat f) = (f \<noteq> Finite 0)"
| "truthy (PStr s) = (s \<noteq> [])"
| "truthy (PList xs) = (xs \<noteq> [])"
| "truthy (PDict kvs) = (kvs \<noteq> [])"

text \<open>\<^verbatim>\<open>isinstance(x, str)\<close> and \<^verbatim>\<open>isinstance(x, list)\<close>.\<close>

fun isinstance_str :: "pyval \<Rightarrow> bool" where
  "isinstance_str (PStr s) = True"
| "isinstance_str v = False"

fun isinstance_list :: "pyval \<Rightarrow> bool" where
  "isinstance_list (PList xs) = True"
| "isinstance_list v = False"

text \<open>\<^verbatim>\<open>str.isspace\<close> on one character: the white space \<^verbatim>\<open>strip()\<close> removes.\<close>

definition isspace :: "char \<Rightarrow> bool" where
  "isspace c \<longleftrightarrow> c \<in> set [CHR 0x09, CHR 0x0A, CHR 0x0B, CHR 0x0C, CHR 0x0D,
     CHR 0x1C, CHR 0x1D, CHR 0x1E, CHR 0x1F, CHR 0x20, CHR 0x85, CHR 0xA0]"

definition lstrip :: "string \<Rightarrow> string" where
  "lstrip s = dropWhile isspace s"

definition rstrip :: "string \<Rightarrow> string" where
  "rstrip s = rev (dropWhile isspace (rev s))"

definition strip :: "string \<Rightarrow> string" where
  "strip s = lstrip (rstrip s)"

text \<open>\<^verbatim>\<open>s.strip(chars)\<close>: removes leading and trailing characters that are in \<open>chars\<close>.\<close>

definition strip_chars :: "string \<Rightarrow> string \<Rightarrow> string" where
  "strip_chars chars s =
     dropWhile (\<lambda>c. c \<in> set chars) (rev (dropWhile (\<lambda>c. c \<in> set chars) (rev s)))"

text \<open>The line boundaries of \<^verbatim>\<open>str.splitlines\<close>; \<^verbatim>\<open>\r\n\<close> is one boundary.\<close>

definition is_linebreak :: "char \<Rightarrow> bool" where
  "is_linebreak c \<longleftrightarrow> c \<in> set [CHR 0x0A, CHR 0x0B, CHR 0x0C, CHR 0x0D,
     CHR 0x1C, CHR 0x1D, CHR 0x1E, CHR 0x85]"

fun splitlines_from :: "string \<Rightarrow> string \<Rightarrow> string list" where
  "splitlines_from cur [] = (if cur = [] then [] else [rev cur])"
| "splitlines_from cur [c] =
     (if is_linebreak c then [rev cur] else [rev (c # cur)])"
| "splitlines_from cur (c # d # cs) =
     (if c = CHR 0x0D \<and> d = CHR 0x0A then rev cur # splitlines_from [] cs
      else if is_linebreak c then rev cur # splitlines_from [] (d # cs)
      else splitlines_from (c # cur) (d # cs))"

definition splitlines :: "string \<Rightarrow> string list" where
  "splitlines s = splitlines_from [] s"

text \<open>\<^verbatim>\<open>str.lower\<close>: the cased letters below 256 are A-Z and the Latin-1 capitals.\<close>

definition lower_char :: "char \<Rightarrow> char" where
  "lower_char c =
     (let n = (of_char c :: nat)
      in if (65 \<le> n \<and> n \<le> 90) \<or> (192 \<le> n \<and> n \<le> 222 \<and> n \<noteq> 215)
         then char_of (n + 32) else c)"

definition lower :: "string \<Rightarrow> string" where
  "lower s = map lower_char s"

text \<open>
  \<^verbatim>\<open>s.replace(old, new)\<close>: the occurrences of \<open>old\<close> are found from the left and do
  not overlap; with an empty \<open>old\<close>, \<open>new\<close> goes before every character and at the end.
\<close>

function str_replace :: "string \<Rightarrow> string \<Rightarrow> string \<Rightarrow> string" where
  "str_replace old new s =
     (if old = [] then new @ concat (map (\<lambda>c. c # new) s)
      else if s = [] then []
      else if prefix old s then new @ str_replace old new (drop (length old) s)
      else hd s # str_replace old new (tl s))"
  by pat_completeness auto
termination
  by (relation "measure (\<lambda>(old, new, s). length s)") auto

declare str_replace.simps [simp del]

text \<open>\<^verbatim>\<open>s.partition(sep)\<close> for a separator of one character.\<close>

definition partition_str :: "char \<Rightarrow> string \<Rightarrow> string \<times> string \<times> string" where
  "partition_str sep s =
     (let before = takeWhile (\<lambda>c. c \<noteq> sep) s; rest = dropWhile (\<lambda>c. c \<noteq> sep) s
      in if rest = [] then (s, [], []) else (before, [sep], tl rest))"

text \<open>\<^verbatim>\<open>s.split(sep)\<close> for a separator of one character: never an empty list.\<close>

fun split_from :: "char \<Rightarrow> string \<Rightarrow> string \<Rightarrow> string list" where
  "split_from sep cur [] = [rev cur]"
| "split_from sep cur (c # cs) =
     (if c = sep then rev cur # split_from sep [] cs else split_from sep (c # cur) cs)"

definition split_str :: "char \<Rightarrow> string \<Rightarrow> string list" where
  "split_str sep s = split_from sep [] s"

text \<open>\<^verbatim>\<open>sep.join(xs)\<close>.\<close>

fun join_str :: "string \<Rightarrow> string list \<Rightarrow> string" where
  "join_str sep [] = []"
| "join_str sep [x] = x"
| "join_str sep (x # y # ys) = x @ sep @ join_str sep (y # ys)"

text \<open>\<^verbatim>\<open>str(n)\<close> of an integer: its decimal digits, with a minus sign when negative.\<close>

fun digits :: "nat \<Rightarrow> string" where
  "digits n =
     (if n < 10 then [char_of (48 + n)] else digits (n div 10) @ [char_of (48 + n mod 10)])"

declare digits.simps [simp del]

definition str_int :: "int \<Rightarrow> string" where
  "str_int i = (if i < 0 then CHR ''-'' # digits (nat (- i)) else digits (nat i))"

section \<open>Floating point\<close>

text \<open>
  Binary64 arithmetic as CPython uses it: every operation returns the exact result rounded
  to the nearest representable value, ties to the even significand.
  \<open>ilog2 a\<close> is the exponent \<open>e\<close> with \<open>2 ^ e \<le> a < 2 ^ (e + 1)\<close> of a positive rational.
\<close>

definition ilog2 :: "rat \<Rightarrow> int" where
  "ilog2 a =
     (let (n, d) = quotient_of a; e0 = bitlen n - bitlen d
      in if 2 powi e0 \<le> a then e0 else e0 - 1)"

definition round_half_even :: "rat \<Rightarrow> int" where
  "round_half_even x =
     (let f = \<lfloor>x\<rfloor>; r = x - of_int f
      in if r < 1 / 2 then f else if 1 / 2 < r then f + 1
         else if even f then f else f + 1)"

definition fl_round :: "rat \<Rightarrow> pyfloat" where
  "fl_round q =
     (if q = 0 then Finite 0
      else
        let a = \<bar>q\<bar>;
            p = max (ilog2 a - 52) (- 1074);
            v = of_int (round_half_even (a / 2 powi p)) * 2 powi p
        in if 2 powi 1024 \<le> v then (if 0 < q then PosInf else NegInf)
           else Finite (sgn q * v))"

text \<open>\<^verbatim>\<open>x / y\<close> on floats: a zero divisor raises, everything else follows IEEE 754.\<close>

fun float_div :: "pyfloat \<Rightarrow> pyfloat \<Rightarrow> error + pyfloat" where
  "float_div x (Finite b) =
     (if b = 0 then Inl ZeroDivisionError
      else (case x of
              Finite a \<Rightarrow> Inr (fl_round (a / b))
            | PosInf \<Rightarrow> Inr (if 0 < b then PosInf else NegInf)
            | NegInf \<Rightarrow> Inr (if 0 < b then NegInf else PosInf)
            | NaN \<Rightarrow> Inr NaN))"
| "float_div (Finite a) PosInf = Inr (Finite 0)"
| "float_div (Finite a) NegInf = Inr (Finite 0)"
| "float_div x y = Inr NaN"

text \<open>\<^verbatim>\<open>math.ceil\<close>.\<close>

fun math_ceil :: "pyfloat \<Rightarrow> error + int" where
  "math_ceil (Finite x) = Inr \<lceil>x\<rceil>"
| "math_ceil NaN = Inl (ValueError ''cannot convert float NaN to integer'')"
| "math_ceil x = Inl OverflowError"

section \<open>The metadata-block checker\<close>

text \<open>
  \<^verbatim>\<open>_check_yaml_metadata_block\<close>. The loop over \<^verbatim>\<open>enumerate(content_lines[1:])\<close>
  leaves \<^verbatim>\<open>yaml_block_end\<close> at its initial value \<^verbatim>\<open>""\<close> or sets it to the index of
  the first line that is a closing delimiter.
\<close>

fun find_yaml_block_end :: "nat \<Rightarrow> string list \<Rightarrow> pyval" where
  "find_yaml_block_end line_num [] = PStr []"
| "find_yaml_block_end line_num (line # lines) =
     (if rstrip line \<in> set [''---'', ''...''] then PInt (int line_num)
      else find_yaml_block_end (Suc line_num) lines)"

definition check_yaml_metadata_block :: "string \<Rightarrow> error + unit" where
  "check_yaml_metadata_block content =
     (if content = [] then Inl (Exception ''Could not find metadata. File is empty.'')
      else
        (case splitlines content of
           [] \<Rightarrow> Inl IndexError
         | first # rest \<Rightarrow>
             if rstrip first \<notin> set [''---'']
             then Inl (Exception ''Could not find metadata header '---'.'')
             else
               let yaml_block_end = find_yaml_block_end 0 rest
               in if \<not> truthy yaml_block_end
                  then Inl (Exception ''Could not find end of metadata block.'')
                  else Inr ()))"

section \<open>Settings, collaborators and the shared state\<close>

text \<open>
  \<^verbatim>\<open>self.settings\<close> is a dictionary; \<open>settings_get s k d\<close> is \<^verbatim>\<open>s.get(k, d)\<close>.
\<close>

type_synonym settings = "string \<rightharpoonup> pyval"

definition settings_get :: "settings \<Rightarrow> string \<Rightarrow> pyval \<Rightarrow> pyval" where
  "settings_get s k d = (case s k of None \<Rightarrow> d | Some v \<Rightarrow> v)"

text \<open>
  The tree \<^verbatim>\<open>bs4.BeautifulSoup\<close> builds: a tag has a name, attributes and contents;
  the document itself is the list of its top-level nodes.
\<close>

datatype node = Tag string "(string \<times> string) list" "node list" | NavigableString string

type_synonym soup = "node list"

text \<open>The module's constants.\<close>

definition DEFAULT_READING_SPEED :: int where
  "DEFAULT_READING_SPEED = 200"

definition ENCODED_LINKS_TO_RAW_LINKS_MAP :: "(string \<times> string) list" where
  "ENCODED_LINKS_TO_RAW_LINKS_MAP =
     [(''%7Bstatic%7D'', ''{static}''),
      (''%7Battach%7D'', ''{attach}''),
      (''%7Bfilename%7D'', ''{filename}'')]"

definition VALID_INPUT_FORMATS :: "string list" where
  "VALID_INPUT_FORMATS =
     [''commonmark'', ''commonmark_x'', ''gfm'', ''markdown'', ''markdown_mmd'',
      ''markdown_phpextra'', ''markdown_strict'']"

definition VALID_OUTPUT_FORMATS :: "string list" where
  "VALID_OUTPUT_FORMATS = [''html'', ''html5'']"

definition VALID_BIB_EXTENSIONS :: "string list" where
  "VALID_BIB_EXTENSIONS = [''json'', ''yaml'', ''bibtex'', ''bib'']"

text \<open>
  \<^verbatim>\<open>main.MdParserConfig\<close>: of the converter's configuration the reader touches only the
  list \<^verbatim>\<open>enable_extensions\<close>.
\<close>

record MdParserConfig =
  enable_extensions :: "pyval list"

text \<open>
  What the module calls and does not define: the host's file opener and metadata hook,
  the converter \<^verbatim>\<open>main.to_html\<close>, \<^verbatim>\<open>json.loads\<close>, the HTML parser and serialiser of
  \<^verbatim>\<open>bs4\<close>, the word counter, the parsing of a string by \<^verbatim>\<open>float\<close>, and the file
  system functions of \<^verbatim>\<open>os\<close>.
\<close>

record env =
  pelican_open :: "string \<Rightarrow> error + string"
  to_html :: "string \<Rightarrow> MdParserConfig \<Rightarrow> error + string"
  json_loads :: "string \<Rightarrow> error + pyval"
  html_parser :: "string \<Rightarrow> soup"
  decode :: "node \<Rightarrow> string"
  process_metadata :: "string \<Rightarrow> pyval \<Rightarrow> error + pyval"
  count_words_in_markdown :: "string \<Rightarrow> nat"
  float_of_str :: "string \<Rightarrow> pyfloat option"
  os_path_basename :: "string \<Rightarrow> string"
  os_path_splitext :: "string \<Rightarrow> string \<times> string"
  os_path_dirname :: "string \<Rightarrow> string"
  os_path_abspath :: "string \<Rightarrow> string"
  os_path_join :: "string \<Rightarrow> string \<Rightarrow> string"
  os_walk :: "string \<Rightarrow> (string \<times> string list \<times> string list) list"

text \<open>
  The state that outlives a call: the class attribute \<^verbatim>\<open>parser_config\<close>, one object
  shared by all calls, and the calls made to the converter so far (the text and the
  configuration each was given), the latest last.
\<close>

record world =
  parser_config :: MdParserConfig
  to_html_calls :: "(string \<times> MdParserConfig) list"

type_synonym metadata = "string \<rightharpoonup> pyval"

section \<open>The reader\<close>

subsection \<open>Reading time\<close>

text \<open>\<^verbatim>\<open>float(x)\<close>.\<close>

fun py_float :: "env \<Rightarrow> pyval \<Rightarrow> error + pyfloat" where
  "py_float env (PFloat f) = Inr f"
| "py_float env (PInt i) =
     (case fl_round (of_int i) of
        Finite x \<Rightarrow> Inr (Finite x)
      | _ \<Rightarrow> Inl OverflowError)"
| "py_float env (PBool b) = Inr (Finite (if b then 1 else 0))"
| "py_float env (PStr s) =
     (case float_of_str env s of
        None \<Rightarrow> Inl (ValueError ''could not convert string to float'')
      | Some f \<Rightarrow> Inr f)"
| "py_float env v = Inl TypeError"

text \<open>
  \<^verbatim>\<open>_calculate_reading_time\<close>. The \<^verbatim>\<open>try\<close> block is the inner \<open>case\<close> chain; the
  handler replaces a \<^verbatim>\<open>ValueError\<close> and lets every other exception pass.
\<close>

definition calculate_reading_time :: "env \<Rightarrow> settings \<Rightarrow> string \<Rightarrow> error + string" where
  "calculate_reading_time env settings content =
     (let reading_speed = settings_get settings ''READING_SPEED'' (PInt DEFAULT_READING_SPEED);
          wordcount = count_words_in_markdown env content
      in case
           (case py_float env (PInt (int wordcount)) of Inl e \<Rightarrow> Inl e | Inr a \<Rightarrow>
            case py_float env reading_speed of Inl e \<Rightarrow> Inl e | Inr b \<Rightarrow>
            case float_div a b of Inl e \<Rightarrow> Inl e | Inr q \<Rightarrow>
            case math_ceil q of Inl e \<Rightarrow> Inl e | Inr reading_time \<Rightarrow>
              let time_unit = (if reading_time = 1 then ''minute'' else ''minutes'')
              in Inr (str_int reading_time @ '' '' @ time_unit))
         of
           Inl (ValueError words_per_minute_nan) \<Rightarrow>
             Inl (ValueError ''READING_SPEED setting must be a number.'')
         | Inl e \<Rightarrow> Inl e
         | Inr reading_time \<Rightarrow> Inr reading_time)"

subsection \<open>Metadata normalisation\<close>

text \<open>
  \<^verbatim>\<open>_process_metadata\<close>, here \<open>process_myst_metadata\<close> (the host's hook
  \<^verbatim>\<open>self.process_metadata\<close> is the collaborator \<open>process_metadata\<close>): first its loop over
  \<^verbatim>\<open>myst_metadata.items()\<close>, then the function itself, which fails on a value that has
  no \<^verbatim>\<open>items\<close>. \<open>stripped_value\<close> is the conditional assignment
  \<^verbatim>\<open>value = value.strip().strip('"')\<close> of the loop body; the character \<open>CHR 0x22\<close> is
  the double quote.
\<close>

definition stripped_value :: "pyval \<Rightarrow> pyval" where
  "stripped_value value =
     (if truthy value \<and> isinstance_str value
      then (case value of
              PStr s \<Rightarrow> PStr (strip_chars [CHR 0x22] (strip s))
            | _ \<Rightarrow> value)
      else value)"

fun process_items :: "env \<Rightarrow> (string \<times> pyval) list \<Rightarrow> metadata \<Rightarrow> error + metadata" where
  "process_items env [] metadata = Inr metadata"
| "process_items env ((key, value) # items) metadata =
     (let key = lower key;
          value = stripped_value value
      in case process_metadata env key value of
           Inl e \<Rightarrow> Inl e
         | Inr v \<Rightarrow> process_items env items (metadata(key \<mapsto> v)))"

definition process_myst_metadata :: "env \<Rightarrow> pyval \<Rightarrow> error + metadata" where
  "process_myst_metadata env myst_metadata =
     (case myst_metadata of
        PDict items \<Rightarrow> process_items env items Map.empty
      | _ \<Rightarrow> Inl AttributeError)"

subsection \<open>The HTML post-processor\<close>

text \<open>
  The searches of \<^verbatim>\<open>bs4\<close> visit the nodes below a tag in document order (a tag before
  its contents). \<open>find_first\<close> is \<^verbatim>\<open>find\<close> over a list of nodes; \<open>replace_first\<close>
  puts a list of nodes in the place of the first node that matches, and is \<open>None\<close> when
  none does.
\<close>

fun children :: "node \<Rightarrow> node list" where
  "children (Tag name attrs contents) = contents"
| "children (NavigableString s) = []"

fun find_first :: "(node \<Rightarrow> bool) \<Rightarrow> node list \<Rightarrow> node option" where
  "find_first p [] = None"
| "find_first p (NavigableString s # ns) =
     (if p (NavigableString s) then Some (NavigableString s) else find_first p ns)"
| "find_first p (Tag name attrs contents # ns) =
     (if p (Tag name attrs contents) then Some (Tag name attrs contents)
      else (case find_first p contents of
              Some m \<Rightarrow> Some m
            | None \<Rightarrow> find_first p ns))"

fun replace_first :: "(node \<Rightarrow> bool) \<Rightarrow> (node \<Rightarrow> node list) \<Rightarrow> node list \<Rightarrow> node list option" where
  "replace_first p f [] = None"
| "replace_first p f (NavigableString s # ns) =
     (if p (NavigableString s) then Some (f (NavigableString s) @ ns)
      else map_option ((#) (NavigableString s)) (replace_first p f ns))"
| "replace_first p f (Tag name attrs contents # ns) =
     (if p (Tag name attrs contents) then Some (f (Tag name attrs contents) @ ns)
      else (case replace_first p f contents of
              Some contents' \<Rightarrow> Some (Tag name attrs contents' # ns)
            | None \<Rightarrow> map_option ((#) (Tag name attrs contents)) (replace_first p f ns)))"

text \<open>The tests of \<^verbatim>\<open>soup.body\<close> and of \<^verbatim>\<open>find("nav", id="TOC")\<close>.\<close>

fun is_body :: "node \<Rightarrow> bool" where
  "is_body (Tag name attrs contents) = (name = ''body'')"
| "is_body (NavigableString s) = False"

fun is_nav_TOC :: "node \<Rightarrow> bool" where
  "is_nav_TOC (Tag name attrs contents) = (name = ''nav'' \<and> map_of attrs ''id'' = Some ''TOC'')"
| "is_nav_TOC (NavigableString s) = False"

definition soup_body :: "soup \<Rightarrow> node option" where
  "soup_body soup = find_first is_body soup"

text \<open>\<^verbatim>\<open>soup.body.find("nav", id="TOC").decompose()\<close> and \<^verbatim>\<open>soup.body.unwrap()\<close>.\<close>

fun set_children :: "node \<Rightarrow> node list \<Rightarrow> node" where
  "set_children (Tag name attrs contents) contents' = Tag name attrs contents'"
| "set_children (NavigableString s) contents' = NavigableString s"

definition decompose_nav_TOC :: "soup \<Rightarrow> soup option" where
  "decompose_nav_TOC soup =
     (case soup_body soup of
        None \<Rightarrow> None
      | Some body \<Rightarrow>
          (case replace_first is_nav_TOC (\<lambda>toc. []) (children body) of
             None \<Rightarrow> None
           | Some contents' \<Rightarrow>
               replace_first is_body (\<lambda>body. [set_children body contents']) soup))"

definition unwrap_body :: "soup \<Rightarrow> soup option" where
  "unwrap_body soup = replace_first is_body children soup"

definition str_soup :: "env \<Rightarrow> soup \<Rightarrow> string" where
  "str_soup env soup = concat (map (decode env) soup)"

text \<open>
  \<^verbatim>\<open>_extract_contents\<close>. An attribute read on \<^verbatim>\<open>None\<close> (no body, or no element to
  decompose) raises \<^verbatim>\<open>AttributeError\<close>.
\<close>

definition extract_contents :: "env \<Rightarrow> string \<Rightarrow> bool \<Rightarrow> error + (string \<times> pyval \<times> pyval)" where
  \<open>extract_contents env html_output table_of_contents =
     (case partition_str CHR 0x0A html_output of (myst_json_metadata, _, html_output) \<Rightarrow>
      case json_loads env myst_json_metadata of Inl e \<Rightarrow> Inl e | Inr myst_metadata \<Rightarrow>
      let soup = html_parser env html_output
      in case
           (if table_of_contents
            then (case soup_body soup of
                    None \<Rightarrow> Inl AttributeError
                  | Some body \<Rightarrow>
                      (case find_first is_nav_TOC (children body) of
                         None \<Rightarrow> Inr (PNone, soup)
                       | Some toc \<Rightarrow>
                           let toc = decode env toc;
                               toc = str_replace ''id="TOC"'' ''class="toc"'' toc
                           in (case decompose_nav_TOC soup of
                                 None \<Rightarrow> Inl AttributeError
                               | Some soup \<Rightarrow> Inr (PStr toc, soup))))
            else Inr (PStr [], soup))
         of
           Inl e \<Rightarrow> Inl e
         | Inr (toc, soup) \<Rightarrow>
             (case unwrap_body soup of
                None \<Rightarrow> Inl AttributeError
              | Some soup \<Rightarrow> Inr (strip (str_soup env soup), toc, myst_metadata)))\<close>

subsection \<open>Bibliographies\<close>

text \<open>\<^verbatim>\<open>_find_bibs\<close>.\<close>

definition find_bibs :: "env \<Rightarrow> string \<Rightarrow> string list" where
  "find_bibs env source_path =
     (let filename = fst (os_path_splitext env (os_path_basename env source_path));
          directory_path = os_path_dirname env (os_path_abspath env source_path)
      in concat (map (\<lambda>(root, dirs, files).
                   concat (map (\<lambda>extension.
                      let bib_name = join_str ''.'' [filename, extension]
                      in if bib_name \<in> set files then [os_path_join env root bib_name] else [])
                    VALID_BIB_EXTENSIONS))
                 (os_walk env directory_path)))"

subsection \<open>Format validators\<close>

text \<open>\<^verbatim>\<open>defaults.get(key, "")\<close> on a defaults record, a dictionary.\<close>

definition dict_get :: "(string \<times> pyval) list \<Rightarrow> string \<Rightarrow> pyval \<Rightarrow> pyval" where
  "dict_get d k dflt = (case map_of d k of None \<Rightarrow> dflt | Some v \<Rightarrow> v)"

text \<open>
  \<^verbatim>\<open>_check_input_format\<close>. The method calls of the last step exist on a string only.
\<close>

definition check_input_format :: "(string \<times> pyval) list \<Rightarrow> error + pyval" where
  "check_input_format defaults =
     (let reader = PStr [];
          reader_input = dict_get defaults ''reader'' (PStr []);
          from_input = dict_get defaults ''from'' (PStr [])
      in if \<not> truthy reader_input \<and> \<not> truthy from_input
         then Inl (ValueError ''No input format specified.'')
         else if truthy reader_input \<and> truthy from_input
         then Inl (ValueError
                (''Specifying both from and reader is not supported.'' @ '' Please specify just one.''))
         else if truthy reader_input \<or> truthy from_input
         then
           let reader = (if truthy reader_input then reader_input
                         else if truthy from_input then from_input else reader)
           in (case reader of
                 PStr r \<Rightarrow>
                   (case split_str CHR ''-'' (str_replace ''+'' ''-'' r) of
                      [] \<Rightarrow> Inl IndexError
                    | reader_prefix # _ \<Rightarrow>
                        if reader_prefix \<notin> set VALID_INPUT_FORMATS
                        then Inl (ValueError ''Input type has to be a Markdown variant.'')
                        else Inr reader)
               | _ \<Rightarrow> Inl AttributeError)
         else Inr reader)"

text \<open>
  \<^verbatim>\<open>_check_output_format\<close>. A value that is not a string is in neither tuple of
  format names.
\<close>

definition in_formats :: "pyval \<Rightarrow> string list \<Rightarrow> bool" where
  "in_formats v formats = (case v of PStr s \<Rightarrow> s \<in> set formats | _ \<Rightarrow> False)"

definition check_output_format :: "(string \<times> pyval) list \<Rightarrow> error + unit" where
  "check_output_format defaults =
     (let writer_output = dict_get defaults ''writer'' (PStr []);
          to_output = dict_get defaults ''to'' (PStr [])
      in if truthy writer_output \<and> truthy to_output
         then Inl (ValueError
                (''Specifying both to and writer is not supported.'' @ '' Please specify just one.''))
         else if \<not> in_formats writer_output VALID_OUTPUT_FORMATS
                 \<and> \<not> in_formats to_output VALID_OUTPUT_FORMATS
         then
           let output_formats = join_str '' or '' VALID_OUTPUT_FORMATS
           in Inl (ValueError (''Output format type must be either '' @ output_formats @ ''.''))
         else Inr ())"

subsection \<open>The pipeline\<close>

text \<open>
  The loop of \<^verbatim>\<open>_create_html\<close> over the items of a map of encoded links, which replaces
  each encoded string in turn.
\<close>

definition replace_encoded_links :: "(string \<times> string) list \<Rightarrow> string \<Rightarrow> string" where
  "replace_encoded_links links output =
     fold (\<lambda>(encoded_str, raw_str) output. str_replace encoded_str raw_str output) links output"

text \<open>\<^verbatim>\<open>_run_myst\<close>: the one call of the converter, with the shared configuration.\<close>

definition run_myst :: "env \<Rightarrow> world \<Rightarrow> string \<Rightarrow> world \<times> (error + string)" where
  "run_myst env w content =
     (w\<lparr>to_html_calls := to_html_calls w @ [(content, parser_config w)]\<rparr>,
      to_html env content (parser_config w))"

text \<open>The directive block the loop over the bibliographies appends for one file.\<close>

definition bibliography_block :: "string \<Rightarrow> string" where
  "bibliography_block bib_file =
     ''\<newline>\<newline>```{bibliography} '' @ bib_file @ ''\<newline>```\<newline>\<newline>''"

text \<open>
  \<^verbatim>\<open>_create_html\<close>. The result is the state after the call and what the call returns
  or raises.
\<close>

definition create_html ::
  "env \<Rightarrow> settings \<Rightarrow> world \<Rightarrow> string \<Rightarrow> string \<Rightarrow> world \<times> (error + (string \<times> metadata))" where
  "create_html env settings w source_path content =
     (let default_files = settings_get settings ''MYST_DEFAULT_FILES'' (PList []);
          extensions = settings_get settings ''MYST_EXTENSIONS'' (PList []);
          w = (case extensions of
                 PList xs \<Rightarrow>
                   w\<lparr>parser_config := (parser_config w)
                        \<lparr>enable_extensions := enable_extensions (parser_config w) @ xs\<rparr>\<rparr>
               | _ \<Rightarrow> w)
      in case check_yaml_metadata_block content of Inl e \<Rightarrow> (w, Inl e) | Inr _ \<Rightarrow>
         let content = fold (\<lambda>bib_file content. content @ bibliography_block bib_file)
                         (find_bibs env source_path) content
         in case run_myst env w content of (w, r) \<Rightarrow>
            (w,
             case r of Inl e \<Rightarrow> Inl e | Inr output \<Rightarrow>
             let table_of_contents = True
             in case extract_contents env output table_of_contents of Inl e \<Rightarrow> Inl e
                | Inr (output, toc, myst_metadata) \<Rightarrow>
             let output = replace_encoded_links ENCODED_LINKS_TO_RAW_LINKS_MAP output
             in case process_myst_metadata env myst_metadata of Inl e \<Rightarrow> Inl e
                | Inr metadata \<Rightarrow>
             case (if table_of_contents
                   then (case process_metadata env ''toc'' toc of
                           Inl e \<Rightarrow> Inl e
                         | Inr v \<Rightarrow> Inr (metadata(''toc'' \<mapsto> v)))
                   else Inr metadata) of Inl e \<Rightarrow> Inl e
                | Inr metadata \<Rightarrow>
             case (if truthy (settings_get settings ''CALCULATE_READING_TIME'' (PList []))
                   then (case calculate_reading_time env settings content of
                           Inl e \<Rightarrow> Inl e
                         | Inr reading_time \<Rightarrow>
                             (case process_metadata env ''reading_time'' (PStr reading_time) of
                                Inl e \<Rightarrow> Inl e
                              | Inr v \<Rightarrow> Inr (metadata(''reading_time'' \<mapsto> v))))
                   else Inr metadata) of Inl e \<Rightarrow> Inl e
                | Inr metadata \<Rightarrow> Inr (output, metadata)))"

text \<open>\<^verbatim>\<open>read\<close>.\<close>

definition read ::
  "env \<Rightarrow> settings \<Rightarrow> world \<Rightarrow> string \<Rightarrow> world \<times> (error + (string \<times> metadata))" where
  "read env settings w source_path =
     (case pelican_open env source_path of
        Inl e \<Rightarrow> (w, Inl e)
      | Inr content \<Rightarrow> create_html env settings w source_path content)"

section \<open>The link rewrite in the specification's words\<close>

text \<open>
  The specification describes the rewrite of the link placeholders as a literal
  replacement that leaves every other character alone: one pass from the left, which at
  each position puts the raw form in the place of an encoded pattern that starts there
  and otherwise copies the character. It is compared with the loop of the code in
  claim C8.
\<close>

function spec_rewrite_links :: "(string \<times> string) list \<Rightarrow> string \<Rightarrow> string" where
  "spec_rewrite_links links s =
     (if s = [] then []
      else (case List.find (\<lambda>(encoded, raw). encoded \<noteq> [] \<and> prefix encoded s) links of
              Some (encoded, raw) \<Rightarrow> raw @ spec_rewrite_links links (drop (length encoded) s)
            | None \<Rightarrow> hd s # spec_rewrite_links links (tl s)))"
  by pat_completeness auto
termination
  by (relation "measure (\<lambda>(links, s). length s)") (auto simp: find_Some_iff)

declare spec_rewrite_links.simps [simp del]

section \<open>A sample run\<close>

text \<open>
  Concrete collaborators, for running the definitions on explicit inputs: one document
  \<^verbatim>\<open>content/doc.md\<close>, a converter that answers with one fixed output, the parse tree
  of that output, a plain serialiser, and the hook the host applies to a key it has no
  processor for (the identity).
\<close>

fun render :: "node \<Rightarrow> string" where
  \<open>render (NavigableString s) = s\<close>
| \<open>render (Tag name attrs contents) =
     ''<'' @ name @ concat (map (\<lambda>(k, v). '' '' @ k @ ''="'' @ v @ ''"'') attrs) @ ''>''
       @ concat (map render contents) @ ''</'' @ name @ ''>''\<close>

definition sample_document :: string where
  "sample_document = ''---\<newline>title: Hello\<newline>---\<newline>Some text.\<newline>''"

definition sample_converted :: string where
  \<open>sample_converted = ''{"Title": "Hello"}\<newline><body><p>Some text.</p></body>''\<close>

definition sample_env :: env where
  \<open>sample_env =
     \<lparr>pelican_open = (\<lambda>path. if path = ''content/doc.md'' then Inr sample_document
                              else Inl (OSError ''No such file or directory'')),
      to_html = (\<lambda>text config. Inr sample_converted),
      json_loads = (\<lambda>s. if s = ''{"Title": "Hello"}''
                          then Inr (PDict [(''Title'', PStr ''Hello'')])
                          else Inl (JSONDecodeError ''Expecting value'')),
      html_parser = (\<lambda>s. if s = ''<body><p>Some text.</p></body>''
                           then [Tag ''body'' [] [Tag ''p'' [] [NavigableString ''Some text.'']]]
                           else if s = ''<p>Some text.</p>''
                           then [Tag ''p'' [] [NavigableString ''Some text.'']]
                           else [NavigableString s]),
      decode = render,
      process_metadata = (\<lambda>name value. Inr value),
      count_words_in_markdown = (\<lambda>text. 2),
      float_of_str = (\<lambda>s. if s = ''200'' then Some (Finite 200) else None),
      os_path_basename = (\<lambda>path. ''doc.md''),
      os_path_splitext = (\<lambda>path. (''doc'', ''.md'')),
      os_path_dirname = (\<lambda>path. ''/site/content''),
      os_path_abspath = (\<lambda>path. ''/site/'' @ path),
      os_path_join = (\<lambda>a b. a @ ''/'' @ b),
      os_walk = (\<lambda>top. [(top, [], [''doc.md''])])\<rparr>\<close>

definition sample_world :: world where
  "sample_world = \<lparr>parser_config = \<lparr>enable_extensions = []\<rparr>, to_html_calls = []\<rparr>"

definition sample_settings :: settings where
  "sample_settings = [''MYST_EXTENSIONS'' \<mapsto> PList [PStr ''dollarmath'']]"

section \<open>Evaluation and helper lemmas\<close>

lemmas string_defs =
  splitlines_def is_linebreak_def rstrip_def lstrip_def strip_def isspace_def
  strip_chars_def partition_str_def split_str_def

lemmas pipeline_defs =
  read_def create_html_def check_yaml_metadata_block_def run_myst_def find_bibs_def
  extract_contents_def soup_body_def unwrap_body_def decompose_nav_TOC_def str_soup_def
  process_myst_metadata_def stripped_value_def settings_get_def bibliography_block_def
  replace_encoded_links_def
  ENCODED_LINKS_TO_RAW_LINKS_MAP_def VALID_BIB_EXTENSIONS_def

lemmas sample_defs =
  sample_env_def sample_world_def sample_document_def sample_converted_def
  sample_settings_def

lemma str_replace_Nil [simp]: "old \<noteq> [] \<Longrightarrow> str_replace old new [] = []"
  by (simp add: str_replace.simps)

lemma str_replace_Cons [simp]:
  "old \<noteq> [] \<Longrightarrow> str_replace old new (c # cs) =
     (if prefix old (c # cs) then new @ str_replace old new (drop (length old) (c # cs))
      else c # str_replace old new cs)"
  by (subst str_replace.simps) simp

lemma lower_Title: "lower ''Title'' = ''title''"
  by code_simp

lemma find_first_None_replace_first:
  "find_first p ns = None \<Longrightarrow> replace_first p f ns = None"
  by (induction p ns rule: find_first.induct) (auto split: if_splits option.splits)

subsection \<open>Rounding to binary64\<close>

text \<open>
  The rounded value of a rational below \<open>2 ^ 53\<close> in magnitude is finite, within half a
  unit in the last place of the exact value, and exact on the integers. For a quotient of
  two integers below \<open>2 ^ 53\<close> the error is smaller than the distance of the quotient
  to the next integer, so the ceiling of the rounded quotient is the ceiling of the exact
  one.
\<close>

lemma round_half_even_of_int: "round_half_even (of_int k) = k"
  by (simp add: round_half_even_def)

lemma round_half_even_error: "\<bar>of_int (round_half_even x) - x\<bar> \<le> 1 / 2"
proof -
  have "0 \<le> x - of_int \<lfloor>x\<rfloor>" "x - of_int \<lfloor>x\<rfloor> < 1"
    by linarith+
  then show ?thesis
    by (auto simp: round_half_even_def Let_def)
qed

lemma ilog2_le:
  assumes "0 < a"
  shows "2 powi (ilog2 a) \<le> a"
proof -
  obtain n d where qo: "quotient_of a = (n, d)"
    by (cases "quotient_of a")
  have d: "0 < d" using qo by (rule quotient_of_denom_pos)
  have a: "a = of_int n / of_int d" using qo by (rule quotient_of_div)
  have n: "0 < n" using assms d a by (simp add: zero_less_divide_iff)
  have bn: "1 \<le> bitlen n" using n by (simp add: bitlen_alt_def)
  have bd: "0 \<le> bitlen d" by (rule bitlen_nonneg)
  have lo: "(2::rat) ^ nat (bitlen n - 1) \<le> of_int n"
    using bitlen_bounds [OF n] by (metis of_int_le_iff of_int_numeral of_int_power)
  have hi: "of_int d \<le> (2::rat) ^ nat (bitlen d)"
    using bitlen_bounds [OF d] by (metis less_imp_le of_int_le_iff of_int_numeral of_int_power)
  have "(2::rat) powi (bitlen n - bitlen d - 1) = 2 powi (bitlen n - 1) / 2 powi (bitlen d)"
    using power_int_diff [of "2::rat" "bitlen n - 1" "bitlen d"] by (simp add: algebra_simps)
  also have "\<dots> = 2 ^ nat (bitlen n - 1) / 2 ^ nat (bitlen d)"
    using bn bd by (simp add: power_int_nonneg_exp)
  also have "\<dots> \<le> of_int n / of_int d"
    using lo hi d n by (intro frac_le) auto
  finally have "(2::rat) powi (bitlen n - bitlen d - 1) \<le> a"
    using a by simp
  then show ?thesis
    using qo by (simp add: ilog2_def Let_def)
qed


lemma fl_round_bounded:
  assumes "q \<noteq> 0" and "\<bar>q\<bar> < 2 ^ 53"
  obtains v where "fl_round q = Finite (sgn q * v)"
    and "\<bar>v - \<bar>q\<bar>\<bar> \<le> max (\<bar>q\<bar> / 2 ^ 53) (1 / 2 ^ 54)"
    and "\<And>k. \<bar>q\<bar> = of_int k \<Longrightarrow> v = of_int k"
proof -
  define p where "p = max (ilog2 \<bar>q\<bar> - 52) (- 1074)"
  define m where "m = round_half_even (\<bar>q\<bar> / 2 powi p)"
  define v where "v = of_int m * (2::rat) powi p"
  have a_pos: "0 < \<bar>q\<bar>" using assms(1) by simp
  have "(2::rat) powi (ilog2 \<bar>q\<bar>) < 2 powi 53"
    using ilog2_le [OF a_pos] assms(2) by simp
  then have e_less: "ilog2 \<bar>q\<bar> < 53"
    by (rule power_int_le_imp_less_exp [rotated]) simp_all
  then have p_le: "p \<le> 0" by (simp add: p_def)
  have "\<bar>v - \<bar>q\<bar>\<bar> = \<bar>of_int m - \<bar>q\<bar> / 2 powi p\<bar> * 2 powi p"
  proof -
    have "v - \<bar>q\<bar> = (of_int m - \<bar>q\<bar> / 2 powi p) * 2 powi p"
      by (simp add: v_def left_diff_distrib)
    then show ?thesis
      by (simp only: abs_mult) simp
  qed
  also have "\<dots> \<le> 1 / 2 * 2 powi p"
    using round_half_even_error [of "\<bar>q\<bar> / 2 powi p"]
    by (intro mult_right_mono) (simp_all add: m_def)
  finally have err: "\<bar>v - \<bar>q\<bar>\<bar> \<le> 2 powi p / 2" by simp
  have pow_bound: "2 powi p / 2 \<le> max (\<bar>q\<bar> / 2 ^ 53) (1 / 2 ^ 54)"
  proof (cases "- 1074 \<le> ilog2 \<bar>q\<bar> - 52")
    case True
    then have "p = ilog2 \<bar>q\<bar> - 52" by (simp add: p_def)
    then have "(2::rat) powi p = 2 powi (ilog2 \<bar>q\<bar>) / 2 ^ 52"
      using power_int_diff [of "2::rat" "ilog2 \<bar>q\<bar>" 52] by simp
    then have "(2::rat) powi p / 2 \<le> \<bar>q\<bar> / 2 ^ 53"
      using ilog2_le [OF a_pos] by simp
    then show ?thesis by (rule max.coboundedI1)
  next
    case False
    then have "p = - 1074" by (simp add: p_def)
    moreover have "(2::rat) powi (- 1074 - 1) = 2 powi (- 1074) / 2 powi 1"
      by (rule power_int_diff) simp
    moreover have "- 1074 - 1 = (- 1075 :: int)" by simp
    ultimately have "(2::rat) powi p / 2 = 2 powi (- 1075)"
      by (simp only: power_int_1_right)
    also have "\<dots> \<le> 2 powi (- 54)"
      by (rule power_int_increasing) simp_all
    also have "\<dots> = 1 / 2 ^ 54"
      by simp
    finally show ?thesis by (rule max.coboundedI2)
  qed
  have "max (\<bar>q\<bar> / 2 ^ 53) (1 / 2 ^ 54) < 1"
    using assms(2) by simp
  with err pow_bound have "v < \<bar>q\<bar> + 1" by linarith
  also have "\<dots> < 2 powi 54" using assms(2) by simp
  also have "\<dots> \<le> (2::rat) powi 1024"
    by (rule power_int_increasing) simp_all
  finally have no_overflow: "\<not> 2 powi 1024 \<le> v" by (simp only: not_le)
  have round: "fl_round q = Finite (sgn q * v)"
    unfolding fl_round_def Let_def p_def [symmetric] m_def [symmetric] v_def [symmetric]
    using assms(1) no_overflow by (simp only: if_False)
  have exact: "v = of_int k" if "\<bar>q\<bar> = of_int k" for k
  proof -
    have "(2::rat) powi (- p) = 2 ^ nat (- p)"
      using p_le by (simp add: power_int_nonneg_exp)
    moreover have "(2::rat) powi p = inverse (2 powi (- p))"
      using power_int_minus [of "2::rat" "- p"] by simp
    ultimately have inv: "(2::rat) powi p = 1 / 2 ^ nat (- p)"
      by (simp add: inverse_eq_divide)
    have "\<bar>q\<bar> / 2 powi p = of_int (k * 2 ^ nat (- p))"
      using that by (simp add: inv)
    then have "m = k * 2 ^ nat (- p)"
      unfolding m_def by (simp only: round_half_even_of_int)
    then show ?thesis
      by (simp add: v_def inv)
  qed
  show thesis
  proof (rule that [OF round])
    show "\<bar>v - \<bar>q\<bar>\<bar> \<le> max (\<bar>q\<bar> / 2 ^ 53) (1 / 2 ^ 54)"
      using err pow_bound by (rule order_trans)
    show "\<And>k. \<bar>q\<bar> = of_int k \<Longrightarrow> v = of_int k"
      by (rule exact)
  qed
qed

lemma fl_round_of_int:
  assumes "\<bar>i\<bar> < 2 ^ 53"
  shows "fl_round (of_int i) = Finite (of_int i)"
proof (cases "i = 0")
  case True
  then show ?thesis by (simp add: fl_round_def)
next
  case False
  have small: "\<bar>of_int i :: rat\<bar> < 2 ^ 53"
    using assms by (metis of_int_abs of_int_less_iff of_int_numeral of_int_power)
  from False have nz: "(of_int i :: rat) \<noteq> 0" by simp
  obtain v where v: "fl_round (of_int i) = Finite (sgn (of_int i) * v)"
    and exact: "\<And>k. \<bar>of_int i :: rat\<bar> = of_int k \<Longrightarrow> v = of_int k"
    using fl_round_bounded [OF nz small] by blast
  have "v = of_int \<bar>i\<bar>" by (rule exact) simp
  then have "sgn (of_int i) * v = (of_int i :: rat)"
    using sgn_mult_abs [of "of_int i :: rat"] by simp
  with v show ?thesis by simp
qed


lemma quotient_gap:
  fixes w r k :: int
  assumes "r \<noteq> 0" and "(of_int w / of_int r :: rat) \<noteq> of_int k"
  shows "1 / \<bar>of_int r\<bar> \<le> \<bar>of_int w / of_int r - (of_int k :: rat)\<bar>"
proof -
  have r: "(of_int r :: rat) \<noteq> 0" using assms(1) by simp
  have "w - k * r \<noteq> 0"
  proof
    assume "w - k * r = 0"
    then have "w = k * r" by simp
    then have "(of_int w / of_int r :: rat) = of_int k" using r by simp
    with assms(2) show False by simp
  qed
  then have "1 \<le> \<bar>w - k * r\<bar>" by simp
  then have one: "(1::rat) \<le> \<bar>of_int (w - k * r)\<bar>"
    by (metis of_int_1 of_int_abs of_int_le_iff)
  have "of_int w / of_int r - (of_int k :: rat) = of_int (w - k * r) / of_int r"
    using r by (simp add: field_simps)
  then have "\<bar>of_int w / of_int r - (of_int k :: rat)\<bar> = \<bar>of_int (w - k * r)\<bar> / \<bar>of_int r\<bar>"
    by (simp only: abs_divide)
  also have "\<dots> \<ge> 1 / \<bar>of_int r\<bar>"
    using one r by (intro divide_right_mono) simp_all
  finally show ?thesis .
qed

lemma ceiling_fl_round_quotient:
  fixes w r :: int
  assumes "0 \<le> w" and "w < 2 ^ 53" and "r \<noteq> 0" and "\<bar>r\<bar> < 2 ^ 53"
  obtains x where "fl_round (of_int w / of_int r) = Finite x"
    and "\<lceil>x\<rceil> = \<lceil>of_int w / of_int r :: rat\<rceil>"
proof (cases "w = 0")
  case True
  have "fl_round (of_int w / of_int r) = Finite 0" "\<lceil>0::rat\<rceil> = \<lceil>of_int w / of_int r :: rat\<rceil>"
    using True by (simp_all add: fl_round_def)
  then show thesis by (rule that)
next
  case False
  define q :: rat where "q = of_int w / of_int r"
  have r: "(of_int r :: rat) \<noteq> 0" and r_pos: "0 < \<bar>of_int r :: rat\<bar>"
    using assms(3) by simp_all
  have "1 \<le> \<bar>r\<bar>" using assms(3) by simp
  then have "(of_int 1 :: rat) \<le> of_int \<bar>r\<bar>" by (simp only: of_int_le_iff)
  then have r_ge: "1 \<le> \<bar>of_int r :: rat\<bar>" by simp
  have r_lt: "\<bar>of_int r :: rat\<bar> < 2 ^ 53"
    using assms(4) by (metis of_int_abs of_int_less_iff of_int_numeral of_int_power)
  have w_pos: "0 < (of_int w :: rat)" using assms(1) False by simp
  have w_lt: "(of_int w :: rat) < 2 ^ 53"
    using assms(2) by (metis of_int_less_iff of_int_numeral of_int_power)
  have q_nz: "q \<noteq> 0" using w_pos r by (simp add: q_def)
  have abs_q: "\<bar>q\<bar> = of_int w / \<bar>of_int r\<bar>"
    using w_pos by (simp add: q_def abs_divide)
  have "\<bar>q\<bar> \<le> of_int w"
    unfolding abs_q using w_pos r_ge by (simp add: field_simps)
  then have q_small: "\<bar>q\<bar> < 2 ^ 53" using w_lt by simp
  obtain v where v: "fl_round q = Finite (sgn q * v)"
    and err: "\<bar>v - \<bar>q\<bar>\<bar> \<le> max (\<bar>q\<bar> / 2 ^ 53) (1 / 2 ^ 54)"
    and exact: "\<And>k. \<bar>q\<bar> = of_int k \<Longrightarrow> v = of_int k"
    using fl_round_bounded [OF q_nz q_small] by blast
  define x where "x = sgn q * v"
  have gap1: "\<bar>q\<bar> / 2 ^ 53 < 1 / \<bar>of_int r\<bar>"
    unfolding abs_q using w_lt r_pos by (simp add: field_simps)
  have gap2: "1 / 2 ^ 54 < 1 / \<bar>of_int r :: rat\<bar>"
    using r_lt r_pos by (simp add: field_simps)
  have "max (\<bar>q\<bar> / 2 ^ 53) (1 / 2 ^ 54) < 1 / \<bar>of_int r\<bar>"
    using gap1 gap2 by (simp only: max_less_iff_conj)
  with err have close: "\<bar>v - \<bar>q\<bar>\<bar> < 1 / \<bar>of_int r\<bar>" by (rule le_less_trans)
  have "x - q = sgn q * (v - \<bar>q\<bar>)"
    using sgn_mult_abs [of q] by (simp add: x_def right_diff_distrib)
  then have "\<bar>x - q\<bar> = \<bar>v - \<bar>q\<bar>\<bar>"
    using q_nz by (simp add: abs_mult abs_sgn_eq)
  with close have near: "\<bar>x - q\<bar> < 1 / \<bar>of_int r\<bar>" by simp
  have far: "1 / \<bar>of_int r\<bar> \<le> \<bar>q - of_int k\<bar>" if "q \<noteq> of_int k" for k
    using quotient_gap [OF assms(3), of w k] that by (simp add: q_def)
  have upper: "x \<le> of_int \<lceil>q\<rceil>"
  proof (cases "q = of_int \<lceil>q\<rceil>")
    case True
    then have "\<bar>q\<bar> = of_int \<bar>\<lceil>q\<rceil>\<bar>" by (metis of_int_abs)
    then have "v = of_int \<bar>\<lceil>q\<rceil>\<bar>" by (rule exact)
    then have "v = \<bar>q\<bar>" using True by (metis of_int_abs)
    then have "x = q" using sgn_mult_abs [of q] by (simp add: x_def)
    then show ?thesis by simp
  next
    case False
    have "q \<le> of_int \<lceil>q\<rceil>" by simp
    with far [OF False] near show ?thesis by linarith
  qed
  have lower: "of_int \<lceil>q\<rceil> - 1 < x"
  proof -
    have lt: "of_int (\<lceil>q\<rceil> - 1) < q" by linarith
    then have "q \<noteq> of_int (\<lceil>q\<rceil> - 1)" by simp
    from far [OF this] near lt show ?thesis by (simp only: of_int_diff of_int_1)
  qed
  have "\<lceil>x\<rceil> = \<lceil>q\<rceil>"
    using lower upper by (rule ceiling_unique)
  then show thesis
    using v by (intro that [of x]) (simp_all add: x_def q_def)
qed

lemma py_float_int:
  assumes "\<bar>i\<bar> < 2 ^ 53"
  shows "py_float env (PInt i) = Inr (Finite (of_int i))"
  using fl_round_of_int [OF assms] by (simp add: py_float.simps(2))

declare py_float.simps(2) [simp del]

lemma py_float_wordcount:
  assumes "(n::nat) < 2 ^ 53"
  shows "py_float env (PInt (int n)) = Inr (Finite (of_nat n))"
proof -
  have "\<bar>int n\<bar> < 2 ^ 53" using assms by (simp add: nat_less_iff [symmetric] nat_power_eq)
  then show ?thesis using py_float_int [of "int n" env] by simp
qed

declare py_float_int [simp]

lemma str_int_1: "str_int 1 = ''1''"
  by code_simp

lemma str_int_2: "str_int 2 = ''2''"
  by code_simp

subsection \<open>Metadata normalisation\<close>

lemma lower_char_idem: "lower_char (lower_char c) = lower_char c"
proof -
  have "of_char c < (256::nat)" by simp
  then show ?thesis
    by (auto simp: lower_char_def Let_def)
qed

lemma lower_idem: "lower (lower s) = lower s"
  by (simp add: lower_def lower_char_idem)

lemma process_items_dom:
  "process_items env items m0 = Inr m \<Longrightarrow>
     dom m = dom m0 \<union> (\<lambda>(key, value). lower key) ` set items"
proof (induction items arbitrary: m0)
  case Nil
  then show ?case by simp
next
  case (Cons item items)
  obtain key "value" where item: "item = (key, value)" by (cases item)
  from Cons.prems obtain v where
    hook: "process_metadata env (lower key) (stripped_value value) = Inr v"
    and rest: "process_items env items (m0(lower key \<mapsto> v)) = Inr m"
    by (auto simp: item Let_def split: sum.splits)
  from Cons.IH [OF rest] show ?case by (auto simp: item)
qed

lemma process_items_entries:
  "process_items env items m0 = Inr m \<Longrightarrow> m k = Some v \<Longrightarrow>
     m0 k = Some v \<or>
     (\<exists>(key, value) \<in> set items.
        k = lower key \<and> process_metadata env k (stripped_value value) = Inr v)"
proof (induction items arbitrary: m0)
  case Nil
  then show ?case by simp
next
  case (Cons item items)
  obtain key "value" where item: "item = (key, value)" by (cases item)
  from Cons.prems(1) obtain v' where
    hook: "process_metadata env (lower key) (stripped_value value) = Inr v'"
    and rest: "process_items env items (m0(lower key \<mapsto> v')) = Inr m"
    by (auto simp: item Let_def split: sum.splits)
  from Cons.IH [OF rest Cons.prems(2)] hook show ?case
    by (auto simp: item split: if_splits)
qed

lemma dropWhile_last: "dropWhile P xs \<noteq> [] \<Longrightarrow> last (dropWhile P xs) = last xs"
  by (metis last_appendR takeWhile_dropWhile_id)

lemma strip_chars_ends:
  "strip_chars cs s = [] \<or>
   (hd (strip_chars cs s) \<notin> set cs \<and> last (strip_chars cs s) \<notin> set cs)"
proof (cases "strip_chars cs s = []")
  case True
  then show ?thesis by simp
next
  case False
  let ?P = "\<lambda>c. c \<in> set cs"
  let ?u = "rev (dropWhile ?P (rev s))"
  have t: "strip_chars cs s = dropWhile ?P ?u" by (simp add: strip_chars_def)
  with False have ne: "dropWhile ?P ?u \<noteq> []" by simp
  have u_ne: "dropWhile ?P (rev s) \<noteq> []"
  proof
    assume "dropWhile ?P (rev s) = []"
    then have "dropWhile ?P ?u = []" by (simp only: rev.simps dropWhile.simps)
    with ne show False by simp
  qed
  have "last (dropWhile ?P ?u) = last ?u" using ne by (rule dropWhile_last)
  also have "\<dots> = hd (dropWhile ?P (rev s))" using u_ne by (simp add: last_rev)
  finally have "last (strip_chars cs s) \<notin> set cs"
    using hd_dropWhile [OF u_ne] by (simp add: t)
  moreover have "hd (strip_chars cs s) \<notin> set cs"
    using hd_dropWhile [OF ne] by (simp add: t)
  ultimately show ?thesis by simp
qed

lemma strip_ends:
  "strip s = [] \<or> (\<not> isspace (hd (strip s)) \<and> \<not> isspace (last (strip s)))"
proof (cases "strip s = []")
  case True
  then show ?thesis by simp
next
  case False
  let ?u = "rev (dropWhile isspace (rev s))"
  have t: "strip s = dropWhile isspace ?u" by (simp add: strip_def lstrip_def rstrip_def)
  with False have ne: "dropWhile isspace ?u \<noteq> []" by simp
  have u_ne: "dropWhile isspace (rev s) \<noteq> []"
  proof
    assume "dropWhile isspace (rev s) = []"
    then have "dropWhile isspace ?u = []" by (simp only: rev.simps dropWhile.simps)
    with ne show False by simp
  qed
  have "last (dropWhile isspace ?u) = last ?u" using ne by (rule dropWhile_last)
  also have "\<dots> = hd (dropWhile isspace (rev s))" using u_ne by (simp add: last_rev)
  finally have "\<not> isspace (last (strip s))"
    using hd_dropWhile [OF u_ne] by (simp add: t)
  moreover have "\<not> isspace (hd (strip s))"
    using hd_dropWhile [OF ne] by (simp add: t)
  ultimately show ?thesis by simp
qed

lemma stripped_value_PStr:
  "stripped_value (PStr s) = PStr (strip_chars [CHR 0x22] (strip s))"
  by (simp add: stripped_value_def strip_chars_def strip_def lstrip_def rstrip_def)

lemma stripped_value_other: "\<not> isinstance_str v \<Longrightarrow> stripped_value v = v"
  by (simp add: stripped_value_def)

subsection \<open>Searching the parse tree\<close>

lemma find_first_None_children:
  "find_first p ns = None \<Longrightarrow> find_first q ns = Some b \<Longrightarrow> find_first p (children b) = None"
  by (induction q ns rule: find_first.induct) (auto split: if_splits option.splits)

lemma extract_contents_toc_None:
  assumes "extract_contents env converted True = Inr (html, toc, myst_metadata)"
    and "find_first is_nav_TOC (html_parser env (snd (snd (partition_str CHR 0x0A converted)))) = None"
  shows "toc = PNone"
  using assms
  by (auto simp: extract_contents_def Let_def soup_body_def
      split: prod.splits sum.splits option.splits dest: find_first_None_children)

lemma sample_run:
  "create_html sample_env Map.empty sample_world ''content/doc.md'' sample_document =
     (\<lparr>parser_config = \<lparr>enable_extensions = []\<rparr>,
       to_html_calls = [(sample_document, \<lparr>enable_extensions = []\<rparr>)]\<rparr>,
      Inr (''<p>Some text.</p>'', [''title'' \<mapsto> PStr ''Hello'', ''toc'' \<mapsto> PNone]))"
  by (simp add: sample_defs pipeline_defs string_defs lower_Title Let_def)

subsection \<open>Replacing substrings\<close>

text \<open>
  A replacement passes over text in which the pattern cannot start, and creates no
  occurrence of a string that lacks the first character of the new text; two replacements
  with these properties for each other commute.
\<close>

lemma str_replace_occurrence:
  "old \<noteq> [] \<Longrightarrow> str_replace old new (old @ s) = new @ str_replace old new s"
  by (subst str_replace.simps) simp

lemma str_replace_no_occurrence:
  "old \<noteq> [] \<Longrightarrow> \<not> prefix old (c # cs) \<Longrightarrow>
     str_replace old new (c # cs) = c # str_replace old new cs"
  by simp

lemma str_replace_over_free_text:
  "old \<noteq> [] \<Longrightarrow> hd old \<notin> set u \<Longrightarrow> str_replace old new (u @ s) = u @ str_replace old new s"
proof (induction u)
  case Nil
  then show ?case by simp
next
  case (Cons c u)
  then have "\<not> prefix old ((c # u) @ s)"
    by (cases old) auto
  with Cons show ?case by simp
qed

lemma prefix_append_cases:
  "prefix old (v @ t) \<Longrightarrow> prefix old v \<or> prefix v old"
  by (auto simp: prefix_append)

lemma str_replace_over_other_pattern:
  assumes "old \<noteq> []"
    and "\<forall>v \<in> set (suffixes q). v \<noteq> [] \<longrightarrow> \<not> prefix old v \<and> \<not> prefix v old"
  shows "str_replace old new (q @ s) = q @ str_replace old new s"
  using assms(2)
proof (induction q)
  case Nil
  then show ?case by simp
next
  case (Cons c q)
  have "\<not> prefix old ((c # q) @ s)"
    using Cons.prems prefix_append_cases [of old "c # q" s] by auto
  moreover have "str_replace old new (q @ s) = q @ str_replace old new s"
    using Cons by simp
  ultimately show ?case
    using assms(1) by simp
qed

lemma prefix_str_replace:
  assumes "old \<noteq> []" and "new \<noteq> []"
  shows "hd new \<notin> set u \<Longrightarrow> prefix u (str_replace old new s) \<Longrightarrow> prefix u s"
proof (induction u arbitrary: s)
  case Nil
  then show ?case by simp
next
  case (Cons x u)
  show ?case
  proof (cases s)
    case Nil
    with Cons.prems assms show ?thesis by simp
  next
    case (Cons c cs)
    show ?thesis
    proof (cases "prefix old s")
      case True
      then have "str_replace old new s = new @ str_replace old new (drop (length old) s)"
        using assms(1) Cons by simp
      with \<open>prefix (x # u) (str_replace old new s)\<close> have "x = hd new"
        using assms(2) by (cases new) auto
      with \<open>hd new \<notin> set (x # u)\<close> show ?thesis by simp
    next
      case False
      then have "str_replace old new s = c # str_replace old new cs"
        using assms(1) Cons by simp
      with \<open>prefix (x # u) (str_replace old new s)\<close>
      have "x = c" and "prefix u (str_replace old new cs)" by simp_all
      moreover have "hd new \<notin> set u" using \<open>hd new \<notin> set (x # u)\<close> by simp
      ultimately show ?thesis
        using Cons.IH [of cs] Cons by simp
    qed
  qed
qed

lemma str_replace_commute:
  assumes ne: "old1 \<noteq> []" "old2 \<noteq> []" "new1 \<noteq> []" "new2 \<noteq> []"
    and skip12: "\<And>s. str_replace old2 new2 (old1 @ s) = old1 @ str_replace old2 new2 s"
    and skip21: "\<And>s. str_replace old1 new1 (old2 @ s) = old2 @ str_replace old1 new1 s"
    and over12: "\<And>s. str_replace old2 new2 (new1 @ s) = new1 @ str_replace old2 new2 s"
    and over21: "\<And>s. str_replace old1 new1 (new2 @ s) = new2 @ str_replace old1 new1 s"
    and fresh12: "hd new2 \<notin> set old1"
    and fresh21: "hd new1 \<notin> set old2"
  shows "str_replace old1 new1 (str_replace old2 new2 s) =
         str_replace old2 new2 (str_replace old1 new1 s)"
proof (induction s rule: length_induct)
  case (1 s)
  show ?case
  proof (cases s)
    case Nil
    then show ?thesis using ne by simp
  next
    case (Cons c cs)
    consider (first) "prefix old1 s" | (second) "\<not> prefix old1 s" "prefix old2 s"
      | (neither) "\<not> prefix old1 s" "\<not> prefix old2 s" by blast
    then show ?thesis
    proof cases
      case first
      then obtain t where t: "s = old1 @ t" by (auto simp: prefix_def)
      then have "length t < length s" using ne by simp
      with 1 have "str_replace old1 new1 (str_replace old2 new2 t) =
          str_replace old2 new2 (str_replace old1 new1 t)" by blast
      then show ?thesis
        using ne by (simp add: t skip12 over12 str_replace_occurrence)
    next
      case second
      then obtain t where t: "s = old2 @ t" by (auto simp: prefix_def)
      then have "length t < length s" using ne by simp
      with 1 have "str_replace old1 new1 (str_replace old2 new2 t) =
          str_replace old2 new2 (str_replace old1 new1 t)" by blast
      then show ?thesis
        using ne by (simp add: t skip21 over21 str_replace_occurrence)
    next
      case neither
      have r1: "str_replace old1 new1 s = c # str_replace old1 new1 cs"
        and r2: "str_replace old2 new2 s = c # str_replace old2 new2 cs"
        using neither ne Cons by simp_all
      have "\<not> prefix old1 (str_replace old2 new2 s)"
        using prefix_str_replace [OF ne(2) ne(4) fresh12] neither(1) by blast
      then have l: "str_replace old1 new1 (str_replace old2 new2 s) =
          c # str_replace old1 new1 (str_replace old2 new2 cs)"
        using ne unfolding r2 by simp
      have "\<not> prefix old2 (str_replace old1 new1 s)"
        using prefix_str_replace [OF ne(1) ne(3) fresh21] neither(2) by blast
      then have r: "str_replace old2 new2 (str_replace old1 new1 s) =
          c # str_replace old2 new2 (str_replace old1 new1 cs)"
        using ne unfolding r1 by simp
      have "length cs < length s" using Cons by simp
      with 1 have "str_replace old1 new1 (str_replace old2 new2 cs) =
          str_replace old2 new2 (str_replace old1 new1 cs)" by blast
      with l r show ?thesis by simp
    qed
  qed
qed

lemma skips:
  "str_replace ''%7Bstatic%7D'' new (''%7Battach%7D'' @ s) = ''%7Battach%7D'' @ str_replace ''%7Bstatic%7D'' new s"
  "str_replace ''%7Bstatic%7D'' new (''%7Bfilename%7D'' @ s) = ''%7Bfilename%7D'' @ str_replace ''%7Bstatic%7D'' new s"
  "str_replace ''%7Battach%7D'' new (''%7Bstatic%7D'' @ s) = ''%7Bstatic%7D'' @ str_replace ''%7Battach%7D'' new s"
  "str_replace ''%7Battach%7D'' new (''%7Bfilename%7D'' @ s) = ''%7Bfilename%7D'' @ str_replace ''%7Battach%7D'' new s"
  "str_replace ''%7Bfilename%7D'' new (''%7Bstatic%7D'' @ s) = ''%7Bstatic%7D'' @ str_replace ''%7Bfilename%7D'' new s"
  "str_replace ''%7Bfilename%7D'' new (''%7Battach%7D'' @ s) = ''%7Battach%7D'' @ str_replace ''%7Bfilename%7D'' new s"
  by (rule str_replace_over_other_pattern; simp)+

lemma overs:
  "str_replace ''%7Bstatic%7D'' new (''{attach}'' @ s) = ''{attach}'' @ str_replace ''%7Bstatic%7D'' new s"
  "str_replace ''%7Bstatic%7D'' new (''{filename}'' @ s) = ''{filename}'' @ str_replace ''%7Bstatic%7D'' new s"
  "str_replace ''%7Battach%7D'' new (''{static}'' @ s) = ''{static}'' @ str_replace ''%7Battach%7D'' new s"
  "str_replace ''%7Battach%7D'' new (''{filename}'' @ s) = ''{filename}'' @ str_replace ''%7Battach%7D'' new s"
  "str_replace ''%7Bfilename%7D'' new (''{static}'' @ s) = ''{static}'' @ str_replace ''%7Bfilename%7D'' new s"
  "str_replace ''%7Bfilename%7D'' new (''{attach}'' @ s) = ''{attach}'' @ str_replace ''%7Bfilename%7D'' new s"
  by (rule str_replace_over_free_text; simp)+

lemma commute_static_attach:
  "str_replace ''%7Bstatic%7D'' ''{static}'' (str_replace ''%7Battach%7D'' ''{attach}'' s) =
   str_replace ''%7Battach%7D'' ''{attach}'' (str_replace ''%7Bstatic%7D'' ''{static}'' s)"
  by (rule str_replace_commute) (simp_all only: skips overs, simp_all)

lemma commute_static_filename:
  "str_replace ''%7Bstatic%7D'' ''{static}'' (str_replace ''%7Bfilename%7D'' ''{filename}'' s) =
   str_replace ''%7Bfilename%7D'' ''{filename}'' (str_replace ''%7Bstatic%7D'' ''{static}'' s)"
  by (rule str_replace_commute) (simp_all only: skips overs, simp_all)

lemma commute_attach_filename:
  "str_replace ''%7Battach%7D'' ''{attach}'' (str_replace ''%7Bfilename%7D'' ''{filename}'' s) =
   str_replace ''%7Bfilename%7D'' ''{filename}'' (str_replace ''%7Battach%7D'' ''{attach}'' s)"
  by (rule str_replace_commute) (simp_all only: skips overs, simp_all)

lemma links_commute:
  assumes "x \<in> set ENCODED_LINKS_TO_RAW_LINKS_MAP" and "y \<in> set ENCODED_LINKS_TO_RAW_LINKS_MAP"
  shows "(\<lambda>(encoded_str, raw_str) output. str_replace encoded_str raw_str output) x \<circ>
         (\<lambda>(encoded_str, raw_str) output. str_replace encoded_str raw_str output) y =
         (\<lambda>(encoded_str, raw_str) output. str_replace encoded_str raw_str output) y \<circ>
         (\<lambda>(encoded_str, raw_str) output. str_replace encoded_str raw_str output) x"
  using assms commute_static_attach commute_static_filename commute_attach_filename
  by (auto simp: ENCODED_LINKS_TO_RAW_LINKS_MAP_def fun_eq_iff simp del: str_replace_Cons)

lemma replace_encoded_links_permuted:
  assumes "mset links = mset ENCODED_LINKS_TO_RAW_LINKS_MAP"
  shows "replace_encoded_links links html = replace_encoded_links ENCODED_LINKS_TO_RAW_LINKS_MAP html"
proof -
  have "fold (\<lambda>(encoded_str, raw_str) output. str_replace encoded_str raw_str output)
          ENCODED_LINKS_TO_RAW_LINKS_MAP =
        fold (\<lambda>(encoded_str, raw_str) output. str_replace encoded_str raw_str output) links"
    using links_commute assms [symmetric] by (rule fold_multiset_equiv)
  then show ?thesis by (simp add: replace_encoded_links_def)
qed

lemma replace_encoded_links_unfold:
  "replace_encoded_links ENCODED_LINKS_TO_RAW_LINKS_MAP s =
     str_replace ''%7Bfilename%7D'' ''{filename}''
       (str_replace ''%7Battach%7D'' ''{attach}'' (str_replace ''%7Bstatic%7D'' ''{static}'' s))"
  by (simp add: replace_encoded_links_def ENCODED_LINKS_TO_RAW_LINKS_MAP_def)

lemma spec_rewrite_links_Nil: "spec_rewrite_links links [] = []"
  by (simp add: spec_rewrite_links.simps)

lemma spec_rewrite_links_unfold:
  "s \<noteq> [] \<Longrightarrow> spec_rewrite_links ENCODED_LINKS_TO_RAW_LINKS_MAP s =
     (if prefix ''%7Bstatic%7D'' s
      then ''{static}'' @ spec_rewrite_links ENCODED_LINKS_TO_RAW_LINKS_MAP (drop (length ''%7Bstatic%7D'') s)
      else if prefix ''%7Battach%7D'' s
      then ''{attach}'' @ spec_rewrite_links ENCODED_LINKS_TO_RAW_LINKS_MAP (drop (length ''%7Battach%7D'') s)
      else if prefix ''%7Bfilename%7D'' s
      then ''{filename}'' @ spec_rewrite_links ENCODED_LINKS_TO_RAW_LINKS_MAP (drop (length ''%7Bfilename%7D'') s)
      else hd s # spec_rewrite_links ENCODED_LINKS_TO_RAW_LINKS_MAP (tl s))"
  by (subst spec_rewrite_links.simps) (simp add: ENCODED_LINKS_TO_RAW_LINKS_MAP_def del: length_Cons list.size)

lemma occurs:
  "str_replace ''%7Bstatic%7D'' new (''%7Bstatic%7D'' @ s) = new @ str_replace ''%7Bstatic%7D'' new s"
  "str_replace ''%7Battach%7D'' new (''%7Battach%7D'' @ s) = new @ str_replace ''%7Battach%7D'' new s"
  "str_replace ''%7Bfilename%7D'' new (''%7Bfilename%7D'' @ s) = new @ str_replace ''%7Bfilename%7D'' new s"
  by (rule str_replace_occurrence; simp)+

lemma prefix_after_replace:
  "prefix ''%7Battach%7D'' (str_replace ''%7Bstatic%7D'' ''{static}'' s) \<Longrightarrow> prefix ''%7Battach%7D'' s"
  "prefix ''%7Bfilename%7D'' (str_replace ''%7Bstatic%7D'' ''{static}'' s) \<Longrightarrow> prefix ''%7Bfilename%7D'' s"
  "prefix ''%7Bfilename%7D'' (str_replace ''%7Battach%7D'' ''{attach}'' s) \<Longrightarrow> prefix ''%7Bfilename%7D'' s"
  by (erule prefix_str_replace [rotated 3]; simp)+

lemma replace_encoded_links_is_one_pass:
  "replace_encoded_links ENCODED_LINKS_TO_RAW_LINKS_MAP s =
   spec_rewrite_links ENCODED_LINKS_TO_RAW_LINKS_MAP s"
proof (induction s rule: length_induct)
  case (1 s)
  let ?r1 = "str_replace ''%7Bstatic%7D'' ''{static}''"
  let ?r2 = "str_replace ''%7Battach%7D'' ''{attach}''"
  let ?r3 = "str_replace ''%7Bfilename%7D'' ''{filename}''"
  let ?spec = "spec_rewrite_links ENCODED_LINKS_TO_RAW_LINKS_MAP"
  have IH: "?r3 (?r2 (?r1 t)) = ?spec t" if "length t < length s" for t
    using 1 that by (simp add: replace_encoded_links_unfold)
  show ?case
  proof (cases s)
    case Nil
    then show ?thesis
      by (simp add: replace_encoded_links_unfold spec_rewrite_links_Nil)
  next
    case (Cons c cs)
    then have ne: "s \<noteq> []" by simp
    consider (static) "prefix ''%7Bstatic%7D'' s"
      | (attach) "\<not> prefix ''%7Bstatic%7D'' s" "prefix ''%7Battach%7D'' s"
      | (filename) "\<not> prefix ''%7Bstatic%7D'' s" "\<not> prefix ''%7Battach%7D'' s"
          "prefix ''%7Bfilename%7D'' s"
      | (none) "\<not> prefix ''%7Bstatic%7D'' s" "\<not> prefix ''%7Battach%7D'' s"
          "\<not> prefix ''%7Bfilename%7D'' s"
      by blast
    then show ?thesis
    proof cases
      case static
      then obtain t where t: "s = ''%7Bstatic%7D'' @ t" by (auto simp: prefix_def)
      have "?r3 (?r2 (?r1 s)) = ''{static}'' @ ?r3 (?r2 (?r1 t))"
        unfolding t by (simp only: occurs overs skips)
      moreover have "?spec s = ''{static}'' @ ?spec t"
        using static ne by (simp add: spec_rewrite_links_unfold) (simp add: t)
      moreover have "length t < length s" by (simp add: t)
      ultimately show ?thesis
        using IH by (simp add: replace_encoded_links_unfold)
    next
      case attach
      then obtain t where t: "s = ''%7Battach%7D'' @ t" by (auto simp: prefix_def)
      have "?r3 (?r2 (?r1 s)) = ''{attach}'' @ ?r3 (?r2 (?r1 t))"
        unfolding t by (simp only: occurs overs skips)
      moreover have "?spec s = ''{attach}'' @ ?spec t"
        using attach ne by (simp add: spec_rewrite_links_unfold) (simp add: t)
      moreover have "length t < length s" by (simp add: t)
      ultimately show ?thesis
        using IH by (simp add: replace_encoded_links_unfold)
    next
      case filename
      then obtain t where t: "s = ''%7Bfilename%7D'' @ t" by (auto simp: prefix_def)
      have "?r3 (?r2 (?r1 s)) = ''{filename}'' @ ?r3 (?r2 (?r1 t))"
        unfolding t by (simp only: occurs overs skips)
      moreover have "?spec s = ''{filename}'' @ ?spec t"
        using filename ne by (simp add: spec_rewrite_links_unfold) (simp add: t)
      moreover have "length t < length s" by (simp add: t)
      ultimately show ?thesis
        using IH by (simp add: replace_encoded_links_unfold)
    next
      case none
      have s1: "?r1 s = c # ?r1 cs"
        using none(1) unfolding Cons by (intro str_replace_no_occurrence) simp_all
      have "\<not> prefix ''%7Battach%7D'' (?r1 s)"
        using none(2) prefix_after_replace(1) by blast
      then have s2: "?r2 (?r1 s) = c # ?r2 (?r1 cs)"
        unfolding s1 by (intro str_replace_no_occurrence) simp_all
      have "\<not> prefix ''%7Bfilename%7D'' (?r1 s)"
        using none(3) prefix_after_replace(2) by blast
      then have "\<not> prefix ''%7Bfilename%7D'' (?r2 (?r1 s))"
        using prefix_after_replace(3) by blast
      then have s3: "?r3 (?r2 (?r1 s)) = c # ?r3 (?r2 (?r1 cs))"
        unfolding s2 by (intro str_replace_no_occurrence) simp_all
      have "?spec s = c # ?spec cs"
        using none ne by (simp add: spec_rewrite_links_unfold) (simp add: Cons)
      moreover have "length cs < length s" by (simp add: Cons)
      ultimately show ?thesis
        using IH s3 by (simp add: replace_encoded_links_unfold)
    qed
  qed
qed

subsection \<open>Lines of a document and the end of the block\<close>

lemma splitlines_from_nonempty: "s \<noteq> [] \<Longrightarrow> splitlines_from cur s \<noteq> []"
  by (induction cur s rule: splitlines_from.induct) auto

lemma splitlines_nonempty: "content \<noteq> [] \<Longrightarrow> \<exists>first rest. splitlines content = first # rest"
  using splitlines_from_nonempty [of content "[]"]
  by (cases "splitlines content") (simp_all add: splitlines_def)

lemma find_yaml_block_end_falsy:
  "\<not> truthy (find_yaml_block_end line_num lines) \<longleftrightarrow>
     (\<forall>line \<in> set lines. rstrip line \<notin> set [''---'', ''...''])
     \<or> (line_num = 0 \<and> (\<exists>line rest. lines = line # rest \<and> rstrip line \<in> set [''---'', ''...'']))"
  by (induction lines arbitrary: line_num) auto

text \<open>
  What the checker does after an opening delimiter: it raises the unterminated-block error
  when no later line closes the block, and also when the very next line does.
\<close>

lemma check_yaml_metadata_block_unterminated_iff:
  assumes "splitlines content = first # rest" and "rstrip first = ''---''"
  shows "check_yaml_metadata_block content = Inl (Exception ''Could not find end of metadata block.'')
     \<longleftrightarrow> (\<forall>line \<in> set rest. rstrip line \<notin> set [''---'', ''...''])
          \<or> (\<exists>line rest'. rest = line # rest' \<and> rstrip line \<in> set [''---'', ''...''])"
proof -
  have ne: "content \<noteq> []"
    using assms(1) by (auto simp: splitlines_def)
  have "check_yaml_metadata_block content =
      (if \<not> truthy (find_yaml_block_end 0 rest)
       then Inl (Exception ''Could not find end of metadata block.'') else Inr ())"
    using ne assms by (simp add: check_yaml_metadata_block_def Let_def)
  then have "check_yaml_metadata_block content = Inl (Exception ''Could not find end of metadata block.'')
      \<longleftrightarrow> \<not> truthy (find_yaml_block_end 0 rest)"
    by simp
  also have "\<dots> \<longleftrightarrow> (\<forall>line \<in> set rest. rstrip line \<notin> set [''---'', ''...''])
          \<or> (\<exists>line rest'. rest = line # rest' \<and> rstrip line \<in> set [''---'', ''...''])"
    using find_yaml_block_end_falsy [of 0 rest] by simp
  finally show ?thesis .
qed

subsection \<open>The setting of the default files\<close>

text \<open>The result of \<^verbatim>\<open>_create_html\<close> does not depend on \<^verbatim>\<open>MYST_DEFAULT_FILES\<close>.\<close>

lemma create_html_ignores_default_files:
  "create_html env (settings(''MYST_DEFAULT_FILES'' \<mapsto> default_files)) w source_path content =
   create_html env (settings(''MYST_DEFAULT_FILES'' := None)) w source_path content"
proof -
  have other: "settings_get (settings(''MYST_DEFAULT_FILES'' \<mapsto> default_files)) k d =
      settings_get (settings(''MYST_DEFAULT_FILES'' := None)) k d"
    if "k \<noteq> ''MYST_DEFAULT_FILES''" for k d
    using that by (simp add: settings_get_def)
  have time: "calculate_reading_time env (settings(''MYST_DEFAULT_FILES'' \<mapsto> default_files)) c =
      calculate_reading_time env (settings(''MYST_DEFAULT_FILES'' := None)) c" for c
    unfolding calculate_reading_time_def by (simp add: other)
  show ?thesis
    unfolding create_html_def Let_def
    by (simp add: other time cong: sum.case_cong prod.case_cong pyval.case_cong if_cong)
qed

section \<open>The metadata-block checker: claims C1 and C9\<close>

text \<open>
  Claim C1: for a document whose first line is \<^verbatim>\<open>---\<close>, the checker should fail with
  the unterminated-block error exactly when no later line is \<^verbatim>\<open>---\<close> or \<^verbatim>\<open>...\<close>, and
  in particular succeed when the line right after the opening delimiter closes the block.
  The code stores the index of the closing line and then tests its truth value, so a
  closing line at index 0 counts as not found: the document of two delimiter lines is
  rejected with the unterminated-block error.
\<close>

theorem C1_block_closed_on_next_line_is_rejected:
  "check_yaml_metadata_block ''---\<newline>---\<newline>'' =
     Inl (Exception ''Could not find end of metadata block.'')"
  by (simp add: check_yaml_metadata_block_def string_defs)

text \<open>
  Claim C9: a document whose first line, after trailing white space is removed, is not
  \<^verbatim>\<open>---\<close> makes \<^verbatim>\<open>read\<close> fail with the missing-header error, and the converter is not
  called: the record of its calls is the same after \<^verbatim>\<open>read\<close> as before.
\<close>

theorem C9_missing_header_fails_before_conversion:
  assumes "pelican_open env source_path = Inr content"
    and "splitlines content = first # rest"
    and "rstrip first \<noteq> ''---''"
  shows "snd (read env settings w source_path) =
           Inl (Exception ''Could not find metadata header '---'.'')
       \<and> to_html_calls (fst (read env settings w source_path)) = to_html_calls w"
proof -
  have "content \<noteq> []"
    using assms(2) by (auto simp: splitlines_def)
  then have "check_yaml_metadata_block content =
      Inl (Exception ''Could not find metadata header '---'.'')"
    using assms(2,3) by (simp add: check_yaml_metadata_block_def)
  then show ?thesis
    using assms(1) by (simp add: read_def create_html_def Let_def split: pyval.splits)
qed

theorem C9_missing_header_witness:
  "splitlines (drop 4 sample_document) = [''title: Hello'', ''---'', ''Some text.'']
   \<and> snd (read (sample_env\<lparr>pelican_open := \<lambda>path. Inr (drop 4 sample_document)\<rparr>)
            sample_settings sample_world ''content/doc.md'') =
        Inl (Exception ''Could not find metadata header '---'.'')
   \<and> to_html_calls
        (fst (read (sample_env\<lparr>pelican_open := \<lambda>path. Inr (drop 4 sample_document)\<rparr>)
               sample_settings sample_world ''content/doc.md'')) = []"
proof -
  let ?env = "sample_env\<lparr>pelican_open := \<lambda>path. Inr (drop 4 sample_document)\<rparr>"
  have open_file: "pelican_open ?env ''content/doc.md'' = Inr (drop 4 sample_document)"
    by simp
  have lines: "splitlines (drop 4 sample_document) = [''title: Hello'', ''---'', ''Some text.'']"
    by (simp add: sample_document_def string_defs)
  have first: "rstrip ''title: Hello'' \<noteq> ''---''"
    by (simp add: string_defs)
  show ?thesis
    using C9_missing_header_fails_before_conversion [OF open_file lines first,
        of sample_settings sample_world] lines
    by (simp add: sample_env_def sample_world_def)
qed

section \<open>The shared parser configuration: claim C2\<close>

text \<open>
  Claim C2: with a non-empty list of extensions in the settings, only the first document a
  reader processes should change the shared parser configuration. The code has no such
  guard. As amended: every call of \<^verbatim>\<open>_create_html\<close> with a list under
  \<^verbatim>\<open>MYST_EXTENSIONS\<close> appends that list to \<^verbatim>\<open>enable_extensions\<close> of the shared
  configuration once more, whether the call then succeeds or fails.
\<close>

theorem C2_every_call_appends_the_extensions:
  "enable_extensions (parser_config (fst
      (create_html env (settings(''MYST_EXTENSIONS'' \<mapsto> PList xs)) w source_path content)))
     = enable_extensions (parser_config w) @ xs"
  by (simp add: create_html_def settings_get_def run_myst_def Let_def
      split: sum.splits prod.splits)

text \<open>
  The claim as stated fails on two calls of \<^verbatim>\<open>read\<close> in a row: the second call changes
  the configuration the first one left.
\<close>

theorem C2_second_call_mutates_counterexample:
  "enable_extensions (parser_config (fst
      (read sample_env sample_settings sample_world ''content/doc.md'')))
     = [PStr ''dollarmath'']
   \<and> enable_extensions (parser_config (fst
      (read sample_env sample_settings
         (fst (read sample_env sample_settings sample_world ''content/doc.md''))
         ''content/doc.md'')))
     = [PStr ''dollarmath'', PStr ''dollarmath'']"
  by (simp add: sample_defs pipeline_defs string_defs Let_def)

section \<open>The HTML post-processor: claim C10\<close>

text \<open>
  Claim C10: when the first line of the converter's output is valid JSON and the parse of
  the remainder has no \<^verbatim>\<open>body\<close> element, \<^verbatim>\<open>_extract_contents\<close> raises (an attribute
  read on \<^verbatim>\<open>None\<close>) instead of returning a triple, with or without the table of contents
  requested.
\<close>

theorem C10_no_body_raises:
  assumes "partition_str CHR 0x0A converted = (first_line, sep, remainder)"
    and "json_loads env first_line = Inr myst_metadata"
    and "soup_body (html_parser env remainder) = None"
  shows "extract_contents env converted table_of_contents = Inl AttributeError"
  using assms
  by (simp add: extract_contents_def unwrap_body_def soup_body_def
      find_first_None_replace_first Let_def)

theorem C10_no_body_witness:
  \<open>partition_str CHR 0x0A ''{"Title": "Hello"}\<newline><p>Some text.</p>'' =
      (''{"Title": "Hello"}'', ''\<newline>'', ''<p>Some text.</p>'')
   \<and> json_loads sample_env ''{"Title": "Hello"}'' = Inr (PDict [(''Title'', PStr ''Hello'')])
   \<and> soup_body (html_parser sample_env ''<p>Some text.</p>'') = None
   \<and> extract_contents sample_env ''{"Title": "Hello"}\<newline><p>Some text.</p>'' True =
        Inl AttributeError
   \<and> extract_contents sample_env ''{"Title": "Hello"}\<newline><p>Some text.</p>'' False =
        Inl AttributeError\<close>
proof -
  have parts: \<open>partition_str CHR 0x0A ''{"Title": "Hello"}\<newline><p>Some text.</p>'' =
      (''{"Title": "Hello"}'', ''\<newline>'', ''<p>Some text.</p>'')\<close>
    by (simp add: partition_str_def)
  have json: \<open>json_loads sample_env ''{"Title": "Hello"}'' =
      Inr (PDict [(''Title'', PStr ''Hello'')])\<close>
    by (simp add: sample_env_def)
  have no_body: \<open>soup_body (html_parser sample_env ''<p>Some text.</p>'') = None\<close>
    by (simp add: sample_env_def soup_body_def)
  show ?thesis
    using C10_no_body_raises [OF parts json no_body, of True]
      C10_no_body_raises [OF parts json no_body, of False] parts json no_body
    by simp
qed

section \<open>The table of contents in the metadata: claim C3\<close>

text \<open>
  Claim C3: the returned metadata should hold a \<^verbatim>\<open>toc\<close> key exactly when the extraction
  found a table of contents, and none when the converter's output has no such element.
  The code stores the key under the flag \<^verbatim>\<open>table_of_contents\<close>, which is always true.
  As amended: whenever \<^verbatim>\<open>_create_html\<close> returns, the metadata holds the key
  \<^verbatim>\<open>toc\<close>; its value is what the hook makes of the extraction's result for the output
  of the converter call just made, and that result is \<^verbatim>\<open>None\<close> when the parsed output
  has no \<^verbatim>\<open>nav\<close> element with the id \<^verbatim>\<open>TOC\<close>.
\<close>

theorem C3_toc_key_always_present:
  assumes "create_html env settings w source_path content = (w', Inr (output, metadata))"
  shows "\<exists>source config converted html toc myst_metadata v.
      last (to_html_calls w') = (source, config)
    \<and> to_html env source config = Inr converted
    \<and> extract_contents env converted True = Inr (html, toc, myst_metadata)
    \<and> process_metadata env ''toc'' toc = Inr v
    \<and> metadata ''toc'' = Some v
    \<and> (find_first is_nav_TOC (html_parser env (snd (snd (partition_str CHR 0x0A converted)))) = None
         \<longrightarrow> toc = PNone)"
proof -
  from assms obtain source converted html toc myst_metadata normalized v where
    call: "last (to_html_calls w') = (source, parser_config w')"
    and conv: "to_html env source (parser_config w') = Inr converted"
    and ext: "extract_contents env converted True = Inr (html, toc, myst_metadata)"
    and hook: "process_metadata env ''toc'' toc = Inr v"
    and md: "metadata ''toc'' = Some v"
    by (auto simp: create_html_def run_myst_def Let_def
        split: sum.splits prod.splits if_splits)
  show ?thesis
    using call conv ext hook md extract_contents_toc_None [OF ext] by (intro exI conjI impI)
qed

text \<open>
  The claim as stated fails on the sample document: the converter's output has no table of
  contents, and the returned metadata holds \<^verbatim>\<open>toc\<close> with the value \<^verbatim>\<open>None\<close>.
\<close>

theorem C3_toc_key_without_toc_element_counterexample:
  \<open>find_first is_nav_TOC (html_parser sample_env ''<body><p>Some text.</p></body>'') = None
   \<and> snd (read sample_env Map.empty sample_world ''content/doc.md'') =
        Inr (''<p>Some text.</p>'', [''title'' \<mapsto> PStr ''Hello'', ''toc'' \<mapsto> PNone])\<close>
  by (simp add: sample_defs pipeline_defs string_defs lower_Title Let_def)

theorem C3_toc_key_always_present_witness:
  "create_html sample_env Map.empty sample_world ''content/doc.md'' sample_document =
     (\<lparr>parser_config = \<lparr>enable_extensions = []\<rparr>,
       to_html_calls = [(sample_document, \<lparr>enable_extensions = []\<rparr>)]\<rparr>,
      Inr (''<p>Some text.</p>'', [''title'' \<mapsto> PStr ''Hello'', ''toc'' \<mapsto> PNone]))
   \<and> (\<exists>source config converted html toc myst_metadata v.
      last (to_html_calls \<lparr>parser_config = \<lparr>enable_extensions = []\<rparr>,
              to_html_calls = [(sample_document, \<lparr>enable_extensions = []\<rparr>)]\<rparr>) = (source, config)
    \<and> to_html sample_env source config = Inr converted
    \<and> extract_contents sample_env converted True = Inr (html, toc, myst_metadata)
    \<and> process_metadata sample_env ''toc'' toc = Inr v
    \<and> [''title'' \<mapsto> PStr ''Hello'', ''toc'' \<mapsto> PNone] ''toc'' = Some v
    \<and> (find_first is_nav_TOC
          (html_parser sample_env (snd (snd (partition_str CHR 0x0A converted)))) = None
         \<longrightarrow> toc = PNone))"
  using C3_toc_key_always_present [OF sample_run] sample_run by (rule conjI [rotated])

section \<open>The default files: claim C4\<close>

text \<open>
  Claim C4: a defaults record with invalid format settings should make the processing of a
  document fail with the validators' error. The validators reject such a record when they
  are applied to it, but \<^verbatim>\<open>_create_html\<close> reads the setting \<^verbatim>\<open>MYST_DEFAULT_FILES\<close>
  and never applies them: with a record that sets both \<^verbatim>\<open>reader\<close> and \<^verbatim>\<open>from\<close> (and
  no output format) the sample document is processed as if the setting were absent.
\<close>

theorem C4_invalid_defaults_are_not_validated:
  "check_input_format [(''reader'', PStr ''markdown''), (''from'', PStr ''markdown'')] =
     Inl (ValueError ''Specifying both from and reader is not supported. Please specify just one.'')
   \<and> check_output_format [(''reader'', PStr ''markdown''), (''from'', PStr ''markdown'')] =
     Inl (ValueError ''Output format type must be either html or html5.'')
   \<and> snd (read sample_env
        [''MYST_DEFAULT_FILES'' \<mapsto>
           PList [PDict [(''reader'', PStr ''markdown''), (''from'', PStr ''markdown'')]]]
        sample_world ''content/doc.md'') =
     Inr (''<p>Some text.</p>'', [''title'' \<mapsto> PStr ''Hello'', ''toc'' \<mapsto> PNone])"
  by (simp add: check_input_format_def check_output_format_def dict_get_def in_formats_def
      VALID_OUTPUT_FORMATS_def sample_defs pipeline_defs string_defs lower_Title Let_def)

section \<open>The reading-time estimator: claims C5 and C6\<close>

text \<open>
  Claim C5: for every numeric reading speed the estimator should return
  \<open>ceil (words / speed)\<close> followed by \<^verbatim>\<open>minute\<close> when that number is 1 and by
  \<^verbatim>\<open>minutes\<close> otherwise. As amended: this holds for every integer speed other than 0
  (the default 200 when the setting is absent), for speeds and word counts below
  \<open>2 ^ 53\<close> in magnitude, where the ceiling of the binary64 quotient is the ceiling of the
  exact quotient.
\<close>

theorem C5_reading_time_nonzero_integer_speed:
  assumes "settings_get settings ''READING_SPEED'' (PInt DEFAULT_READING_SPEED) = PInt rate"
    and "rate \<noteq> 0" and "\<bar>rate\<bar> < 2 ^ 53"
    and "count_words_in_markdown env content < 2 ^ 53"
  shows "calculate_reading_time env settings content =
     Inr (let n = \<lceil>of_nat (count_words_in_markdown env content) / of_int rate :: rat\<rceil>
          in str_int n @ (if n = 1 then '' minute'' else '' minutes''))"
proof -
  let ?w = "count_words_in_markdown env content"
  have w: "py_float env (PInt (int ?w)) = Inr (Finite (of_nat ?w))"
    using assms(4) by (rule py_float_wordcount)
  have r: "py_float env (PInt rate) = Inr (Finite (of_int rate))"
    using assms(3) by (rule py_float_int)
  have "0 \<le> int ?w" "int ?w < 2 ^ 53"
    using assms(4) by (simp_all add: nat_less_iff [symmetric] nat_power_eq)
  then obtain x where x: "fl_round (of_int (int ?w) / of_int rate) = Finite x"
    and ceil: "\<lceil>x\<rceil> = \<lceil>of_int (int ?w) / of_int rate :: rat\<rceil>"
    using ceiling_fl_round_quotient [OF _ _ assms(2,3)] by blast
  have div: "float_div (Finite (of_nat ?w)) (Finite (of_int rate)) = Inr (Finite x)"
    using x assms(2) by simp
  show ?thesis
    using assms(1) w r div ceil
    by (simp add: calculate_reading_time_def Let_def)
qed

text \<open>The claim as stated fails at the numeric speed 0, where the division raises.\<close>

theorem C5_zero_speed_counterexample:
  "calculate_reading_time sample_env [''READING_SPEED'' \<mapsto> PInt 0] sample_document =
     Inl ZeroDivisionError"
  by (simp add: calculate_reading_time_def settings_get_def sample_env_def)

theorem C5_reading_time_witness:
  "settings_get Map.empty ''READING_SPEED'' (PInt DEFAULT_READING_SPEED) = PInt 200
   \<and> calculate_reading_time (sample_env\<lparr>count_words_in_markdown := \<lambda>text. 400\<rparr>)
        Map.empty sample_document = Inr ''2 minutes''
   \<and> calculate_reading_time (sample_env\<lparr>count_words_in_markdown := \<lambda>text. 200\<rparr>)
        Map.empty sample_document = Inr ''1 minute''"
proof -
  have speed: "settings_get Map.empty ''READING_SPEED'' (PInt DEFAULT_READING_SPEED) = PInt 200"
    by (simp add: settings_get_def DEFAULT_READING_SPEED_def)
  have nz: "(200::int) \<noteq> 0" and small: "\<bar>200::int\<bar> < 2 ^ 53" by simp_all
  have w400: "count_words_in_markdown (sample_env\<lparr>count_words_in_markdown := \<lambda>text. 400\<rparr>)
      sample_document < 2 ^ 53" by simp
  have w200: "count_words_in_markdown (sample_env\<lparr>count_words_in_markdown := \<lambda>text. 200\<rparr>)
      sample_document < 2 ^ 53" by simp
  show ?thesis
    using C5_reading_time_nonzero_integer_speed [OF speed nz small w400]
      C5_reading_time_nonzero_integer_speed [OF speed nz small w200] speed
    by (simp add: str_int_1 str_int_2)
qed

text \<open>
  Claim C6: every reading speed that cannot be turned into a float, whatever its type,
  should make the estimator fail with the message
  \<^verbatim>\<open>READING_SPEED setting must be a number.\<close> and in no other way. The handler catches
  \<^verbatim>\<open>ValueError\<close> only, the exception \<^verbatim>\<open>float\<close> raises on a string it cannot parse.
  As amended: a speed that is a string \<^verbatim>\<open>float\<close> cannot parse makes the estimator fail
  with that message (for a word count below \<open>2 ^ 53\<close>, which \<^verbatim>\<open>float\<close> converts
  before it comes to the speed).
\<close>

theorem C6_unparseable_string_speed:
  assumes "count_words_in_markdown env content < 2 ^ 53"
    and "settings ''READING_SPEED'' = Some (PStr s)"
    and "float_of_str env s = None"
  shows "calculate_reading_time env settings content =
           Inl (ValueError ''READING_SPEED setting must be a number.'')"
  using py_float_wordcount [OF assms(1), of env] assms(2,3)
  by (simp add: calculate_reading_time_def settings_get_def Let_def)

text \<open>
  The claim as stated fails at the speed \<^verbatim>\<open>None\<close>, which \<^verbatim>\<open>float\<close> rejects with a
  \<^verbatim>\<open>TypeError\<close> that passes the handler.
\<close>

theorem C6_none_speed_counterexample:
  "calculate_reading_time sample_env [''READING_SPEED'' \<mapsto> PNone] sample_document =
     Inl TypeError"
  by (simp add: calculate_reading_time_def settings_get_def sample_env_def)

theorem C6_unparseable_string_witness:
  "count_words_in_markdown sample_env sample_document < 2 ^ 53
   \<and> float_of_str sample_env ''fast'' = None
   \<and> calculate_reading_time sample_env [''READING_SPEED'' \<mapsto> PStr ''fast''] sample_document =
        Inl (ValueError ''READING_SPEED setting must be a number.'')"
proof -
  have wc: "count_words_in_markdown sample_env sample_document < 2 ^ 53"
    by (simp add: sample_env_def)
  have unparseable: "float_of_str sample_env ''fast'' = None"
    by (simp add: sample_env_def)
  have speed: "[''READING_SPEED'' \<mapsto> PStr ''fast''] ''READING_SPEED'' = Some (PStr ''fast'')"
    by simp
  show ?thesis
    using C6_unparseable_string_speed
        [where settings = "[''READING_SPEED'' \<mapsto> PStr ''fast'']", OF wc speed unparseable]
      wc unparseable
    by simp
qed

section \<open>Metadata normalisation: claim C7\<close>

text \<open>
  Claim C7: normalisation should lower-case every key and hand to the hook, for a
  non-empty string, a value with no white space and no double quote at either end, and
  every other value unchanged. The code strips white space first and double quotes second.
  As amended: the keys of the result are the lower-cased keys of the record; every entry
  is the hook's result for a lower-cased key and the stripped value of an item with that
  key; the stripped value of a string is \<^verbatim>\<open>value.strip().strip('"')\<close>, where
  \<^verbatim>\<open>value.strip()\<close> has no white space at either end and the final string has no
  double quote at either end (white space that stood inside the quotes stays); a value that
  is not a string is handed on unchanged.
\<close>

theorem C7_metadata_normalisation:
  assumes "process_myst_metadata env (PDict items) = Inr metadata"
  shows "dom metadata = (\<lambda>(key, value). lower key) ` set items
       \<and> (\<forall>k \<in> dom metadata. lower k = k)
       \<and> (\<forall>k v. metadata k = Some v \<longrightarrow>
            (\<exists>(key, value) \<in> set items.
               k = lower key \<and> process_metadata env k (stripped_value value) = Inr v))
       \<and> (\<forall>s. stripped_value (PStr s) = PStr (strip_chars [CHR 0x22] (strip s))
              \<and> (strip s = [] \<or> (\<not> isspace (hd (strip s)) \<and> \<not> isspace (last (strip s))))
              \<and> (strip_chars [CHR 0x22] (strip s) = [] \<or>
                   (hd (strip_chars [CHR 0x22] (strip s)) \<noteq> CHR 0x22
                    \<and> last (strip_chars [CHR 0x22] (strip s)) \<noteq> CHR 0x22)))
       \<and> (\<forall>v. \<not> isinstance_str v \<longrightarrow> stripped_value v = v)"
proof -
  from assms have run: "process_items env items Map.empty = Inr metadata"
    by (simp add: process_myst_metadata_def)
  have keys: "dom metadata = (\<lambda>(key, value). lower key) ` set items"
    using process_items_dom [OF run] by simp
  have lowered: "\<forall>k \<in> dom metadata. lower k = k"
    unfolding keys by (auto simp: lower_idem)
  have entries: "\<forall>k v. metadata k = Some v \<longrightarrow>
      (\<exists>(key, value) \<in> set items.
         k = lower key \<and> process_metadata env k (stripped_value value) = Inr v)"
    using process_items_entries [OF run] by simp
  have strings: "\<forall>s. stripped_value (PStr s) = PStr (strip_chars [CHR 0x22] (strip s))
      \<and> (strip s = [] \<or> (\<not> isspace (hd (strip s)) \<and> \<not> isspace (last (strip s))))
      \<and> (strip_chars [CHR 0x22] (strip s) = [] \<or>
           (hd (strip_chars [CHR 0x22] (strip s)) \<noteq> CHR 0x22
            \<and> last (strip_chars [CHR 0x22] (strip s)) \<noteq> CHR 0x22))"
    using stripped_value_PStr strip_ends strip_chars_ends [of "[CHR 0x22]"] by simp
  show ?thesis
    using keys lowered entries strings stripped_value_other by blast
qed

text \<open>
  The claim as stated fails on a quoted title with blanks inside the quotes: the value the
  hook receives begins and ends with a blank.
\<close>

theorem C7_whitespace_inside_quotes_counterexample:
  \<open>stripped_value (PStr ''" Hello "'') = PStr '' Hello ''
   \<and> process_myst_metadata sample_env (PDict [(''Title'', PStr ''" Hello "'')]) =
       Inr [''title'' \<mapsto> PStr '' Hello '']\<close>
  by (simp add: pipeline_defs string_defs lower_Title sample_env_def)

theorem C7_metadata_normalisation_witness:
  \<open>process_myst_metadata sample_env (PDict [(''Title'', PStr '' "Hello" '')]) =
       Inr [''title'' \<mapsto> PStr ''Hello'']
   \<and> dom [''title'' \<mapsto> PStr ''Hello''] = {''title''}
   \<and> stripped_value (PStr '' "Hello" '') = PStr ''Hello''
   \<and> stripped_value (PInt 3) = PInt 3\<close>
proof -
  have run: \<open>process_myst_metadata sample_env (PDict [(''Title'', PStr '' "Hello" '')]) =
       Inr [''title'' \<mapsto> PStr ''Hello'']\<close>
    by (simp add: pipeline_defs string_defs lower_Title sample_env_def)
  have s: \<open>strip_chars [CHR 0x22] (strip '' "Hello" '') = ''Hello''\<close>
    by (simp add: string_defs)
  show ?thesis
    using C7_metadata_normalisation [OF run] run s
    by (simp add: lower_Title)
qed

section \<open>The link-placeholder rewrite: claim C8\<close>

text \<open>
  Claim C8: the rewrite replaces exactly the three patterns \<^verbatim>\<open>%7Bstatic%7D\<close>,
  \<^verbatim>\<open>%7Battach%7D\<close> and \<^verbatim>\<open>%7Bfilename%7D\<close> by \<^verbatim>\<open>{static}\<close>, \<^verbatim>\<open>{attach}\<close> and
  \<^verbatim>\<open>{filename}\<close>; the result is the same in whatever order the three replacements are
  applied, and every character outside an occurrence of a pattern is left unchanged: the
  loop of the code, run over any arrangement of the three pairs, gives what the code's
  order gives, and that is the one-pass literal rewrite.
\<close>

theorem C8_link_rewrite_is_order_independent_and_literal:
  "(\<forall>links. mset links = mset ENCODED_LINKS_TO_RAW_LINKS_MAP \<longrightarrow>
      replace_encoded_links links html =
        replace_encoded_links ENCODED_LINKS_TO_RAW_LINKS_MAP html)
   \<and> replace_encoded_links ENCODED_LINKS_TO_RAW_LINKS_MAP html =
       spec_rewrite_links ENCODED_LINKS_TO_RAW_LINKS_MAP html"
  using replace_encoded_links_permuted replace_encoded_links_is_one_pass by blast

theorem C8_link_rewrite_witness:
  \<open>mset [(''%7Bfilename%7D'', ''{filename}''), (''%7Battach%7D'', ''{attach}''),
          (''%7Bstatic%7D'', ''{static}'')] = mset ENCODED_LINKS_TO_RAW_LINKS_MAP
   \<and> replace_encoded_links
        [(''%7Bfilename%7D'', ''{filename}''), (''%7Battach%7D'', ''{attach}''),
         (''%7Bstatic%7D'', ''{static}'')]
        ''href="%7Bstatic%7Dimages/a.png"'' = ''href="{static}images/a.png"''
   \<and> replace_encoded_links ENCODED_LINKS_TO_RAW_LINKS_MAP
        ''href="%7Bstatic%7Dimages/a.png"'' = ''href="{static}images/a.png"''
   \<and> spec_rewrite_links ENCODED_LINKS_TO_RAW_LINKS_MAP
        ''href="%7Bstatic%7Dimages/a.png"'' = ''href="{static}images/a.png"''\<close>
proof -
  have perm: "mset [(''%7Bfilename%7D'', ''{filename}''), (''%7Battach%7D'', ''{attach}''),
          (''%7Bstatic%7D'', ''{static}'')] = mset ENCODED_LINKS_TO_RAW_LINKS_MAP"
    by (simp add: ENCODED_LINKS_TO_RAW_LINKS_MAP_def)
  have run: \<open>replace_encoded_links ENCODED_LINKS_TO_RAW_LINKS_MAP
        ''href="%7Bstatic%7Dimages/a.png"'' = ''href="{static}images/a.png"''\<close>
    by (simp add: replace_encoded_links_def ENCODED_LINKS_TO_RAW_LINKS_MAP_def)
  show ?thesis
    using C8_link_rewrite_is_order_independent_and_literal
        [of \<open>''href="%7Bstatic%7Dimages/a.png"''\<close>] perm run
    by (simp only: simp_thms)
qed

end
